theory Spec2Isabelle
  imports Complex_Main "HOL-Library.Word" "HOL-Library.Sublist"
begin

unbundle bit_operations_syntax

section \<open>Steganographic codec: the generated embed.py and extract.py\<close>

text \<open>
  The Python scripts work on what \<open>cv2.imread\<close> returns: a \<open>uint8\<close> array of shape
  \<open>(rows, cols, channels)\<close>. An image is its shape together with the flattened array
  (\<open>img.flatten()\<close>, raster order); \<open>reshape\<close> keeps the flattened data and the shape.
  The files the scripts read and write are a map from paths to images: \<open>cv2.imread\<close>
  yields \<open>None\<close> for a path it cannot read, \<open>cv2.imwrite\<close> stores the image (the
  service always writes PNG, which is lossless).
\<close>

type_synonym byte = "8 word"

record image =
  rows :: nat
  cols :: nat
  channels :: nat
  flat :: "byte list"

type_synonym files = "string \<rightharpoonup> image"

datatype error = ValueError string | IndexError

definition wf_image :: "image \<Rightarrow> bool" where
  "wf_image img \<longleftrightarrow> length (flat img) = rows img * cols img * channels img"

definition imread :: "files \<Rightarrow> string \<Rightarrow> image option" where
  "imread fs image_path = fs image_path"

definition imwrite :: "files \<Rightarrow> string \<Rightarrow> image \<Rightarrow> bool \<times> files" where
  "imwrite fs output_path img = (True, fs(output_path \<mapsto> img))"

definition delimiter :: string where
  "delimiter = ''1111111111111110''"

text \<open>\<open>format(byte, '08b')\<close>: eight binary digits, most significant first.\<close>

definition format_08b :: "byte \<Rightarrow> string" where
  "format_08b b = map (\<lambda>i. if bit b i then CHR ''1'' else CHR ''0'') [7, 6, 5, 4, 3, 2, 1, 0]"

text \<open>\<open>int(bit)\<close> on one character of the bit string, which holds only 0 and 1.\<close>

definition int_bit :: "char \<Rightarrow> byte" where
  "int_bit c = (if c = CHR ''1'' then 1 else 0)"

text \<open>\<open>int(byte, 2)\<close> on a string of binary digits.\<close>

definition int_2 :: "string \<Rightarrow> nat" where
  "int_2 s = foldl (\<lambda>n c. 2 * n + (if c = CHR ''1'' then 1 else 0)) 0 s"

text \<open>\<open>str(pixel & 1)\<close>.\<close>

definition str_lsb :: "byte \<Rightarrow> string" where
  "str_lsb pixel = (if pixel AND 1 = 1 then ''1'' else ''0'')"

text \<open>The character \<open>str(pixel & 1)\<close> consists of.\<close>

definition lsb_char :: "byte \<Rightarrow> char" where
  "lsb_char pixel = (if pixel AND 1 = 1 then CHR ''1'' else CHR ''0'')"

text \<open>\<open>''.join(format(byte, '08b') for byte in data)\<close>.\<close>

definition binary_of :: "byte list \<Rightarrow> string" where
  "binary_of data = concat (map format_08b data)"

text \<open>
  The loop \<open>for i, bit in enumerate(binary_data): flat_img[i] = (flat_img[i] & 0xFE) | int(bit)\<close>.
  An index beyond the array raises \<open>IndexError\<close> in numpy.
\<close>

fun embed_loop :: "byte list \<Rightarrow> nat \<Rightarrow> string \<Rightarrow> error + byte list" where
  "embed_loop flat_img i [] = Inr flat_img"
| "embed_loop flat_img i (b # binary_data) =
     (if i < length flat_img
      then embed_loop (flat_img[i := (flat_img ! i AND 0xFE) OR int_bit b]) (Suc i) binary_data
      else Inl IndexError)"

text \<open>
  \<open>embed_data_in_image\<close> returns \<open>True\<close> (here \<open>None\<close>: no error) or prints the exception
  and returns \<open>False\<close> (here the exception); the second component is the file system after
  the call.
\<close>

definition embed_data_in_image ::
    "files \<Rightarrow> string \<Rightarrow> byte list \<Rightarrow> string \<Rightarrow> error option \<times> files" where
  "embed_data_in_image fs image_path data output_path =
     (case imread fs image_path of
        None \<Rightarrow> (Some (ValueError ''Could not read image file''), fs)
      | Some img \<Rightarrow>
          let binary_data = binary_of data @ delimiter;
              total_pixels = rows img * cols img * channels img
          in if length binary_data > total_pixels
             then (Some (ValueError ''Image too small to hold the data''), fs)
             else (case embed_loop (flat img) 0 binary_data of
                     Inl e \<Rightarrow> (Some e, fs)
                   | Inr flat_img \<Rightarrow>
                       let stego_img = img\<lparr>flat := flat_img\<rparr>;
                           (success, fs') = imwrite fs output_path stego_img
                       in if \<not> success
                          then (Some (ValueError ''Could not save steganographic image''), fs')
                          else (None, fs')))"

text \<open>
  The extraction loop: append each least significant bit and stop at the first moment
  the collected string ends with the delimiter, which is then cut off.
\<close>

fun extract_loop :: "byte list \<Rightarrow> string \<Rightarrow> string" where
  "extract_loop [] binary_data = binary_data"
| "extract_loop (pixel # flat_img) binary_data =
     (let binary_data = binary_data @ str_lsb pixel
      in if suffix delimiter binary_data
         then take (length binary_data - length delimiter) binary_data
         else extract_loop flat_img binary_data)"

definition pad_zeros :: "string \<Rightarrow> string" where
  "pad_zeros binary_data =
     (if length binary_data mod 8 \<noteq> 0
      then binary_data @ replicate (8 - length binary_data mod 8) CHR ''0''
      else binary_data)"

text \<open>\<open>for i in range(0, len(binary_data), 8)\<close>, appending every full group of eight digits.\<close>

function to_bytes :: "string \<Rightarrow> nat \<Rightarrow> byte list" where
  "to_bytes binary_data i =
     (if i < length binary_data
      then (let byte = take 8 (drop i binary_data)
            in (if length byte = 8 then [of_nat (int_2 byte)] else []))
           @ to_bytes binary_data (i + 8)
      else [])"
  by pat_completeness auto
termination
  by (relation "measure (\<lambda>(binary_data, i). length binary_data - i)") auto

declare to_bytes.simps [simp del]

definition extract_data_from_image :: "files \<Rightarrow> string \<Rightarrow> error + byte list" where
  "extract_data_from_image fs image_path =
     (case imread fs image_path of
        None \<Rightarrow> Inl (ValueError ''Could not read image file'')
      | Some img \<Rightarrow> Inr (to_bytes (pad_zeros (extract_loop (flat img) [])) 0))"

section \<open>Biometric matcher: the BiometricService class\<close>

text \<open>
  JavaScript numbers are modelled as real numbers. The one place where the service can
  produce \<open>NaN\<close> from finite inputs is the quality score of an empty feature vector
  (\<open>0 / 0\<close>), so a score is a \<open>num\<close>: a real number or \<open>NaN\<close>; every comparison with
  \<open>NaN\<close> is false. The mock feature vector holds 512 values each of which is a 32-bit
  float, so the sums and the mean that \<open>assessQuality\<close> computes on a vector with equal
  components are exact and the real-number model gives the same score.
\<close>

datatype num = NaN | Num real



record failure =
  error :: string
  quality :: "num option"

record verification =
  verified :: bool
  v_confidence :: real
  v_similarity :: real
  v_threshold :: real
  v_quality :: num

record template =
  template_features :: "real list"
  template_hash :: string







section \<open>Access gate: the route POST /verify/:documentId\<close>

text \<open>
  The handler of \<open>routes/biometric.js\<close>. What the awaited collaborators answer (the
  database rows, the clock, the biometric service, object storage, the codec and the
  decryption service) is the record \<open>outcomes\<close>; the table \<open>access_logs\<close> is a list of
  rows that \<open>insert\<close> extends. Times are milliseconds.
\<close>

datatype app_error =
    ValidationError string
  | NotFoundError string
  | AuthorizationError string
  | Error string

fun message :: "app_error \<Rightarrow> string" where
  "message (ValidationError m) = m"
| "message (NotFoundError m) = m"
| "message (AuthorizationError m) = m"
| "message (Error m) = m"

record challenge =
  challenge_value :: string
  challenge_timestamp :: int

record request =
  req_documentId :: string
  req_userId :: string
  req_biometricData :: "string option"
  req_type :: string
  req_challenge :: "challenge option"

record document =
  title :: string
  start_time :: int
  end_time :: int
  document_status :: string
  s3_key :: string

record access_log =
  log_user_id :: string
  log_document_id :: string
  access_type :: string
  success :: bool
  failure_reason :: "string option"
  confidence_score :: "real option"

record outcomes =
  challenge_clock :: int
  document_row :: "document option"
  access_clock :: int
  template_row :: "template option"
  processResult :: "string + byte list"
  verifyResult :: "failure + verification"
  downloadResult :: "string + byte list"
  extractResult :: "string + byte list"
  decryptResult :: "string + byte list"

record response =
  res_title :: string
  res_data :: "byte list"
  res_confidence :: real
  res_quality :: num

text \<open>\<open>validateChallenge\<close>: the challenge is at most five minutes old.\<close>

definition validateChallenge :: "int \<Rightarrow> int \<Rightarrow> bool" where
  "validateChallenge now timestamp =
     (let challengeAge = now - timestamp; maxAge = 5 * 60 * 1000 in challengeAge \<le> maxAge)"

definition insert_log :: "access_log list \<Rightarrow> access_log \<Rightarrow> access_log list" where
  "insert_log access_logs row = access_logs @ [row]"

text \<open>
  The body of the \<open>try\<close> block: the error thrown or the response sent, and the table
  afterwards.
\<close>

definition verify_try ::
    "request \<Rightarrow> challenge \<Rightarrow> outcomes \<Rightarrow> access_log list
       \<Rightarrow> (app_error + response) \<times> access_log list" where
  "verify_try req ch env access_logs =
     (if \<not> validateChallenge (challenge_clock env) (challenge_timestamp ch)
      then (Inl (AuthorizationError ''Invalid or expired biometric challenge''), access_logs)
      else case document_row env of
        None \<Rightarrow> (Inl (NotFoundError ''Document not found''), access_logs)
      | Some doc \<Rightarrow>
          if access_clock env < start_time doc
          then (Inl (AuthorizationError ''Document access not yet available''), access_logs)
          else if access_clock env > end_time doc
          then (Inl (AuthorizationError ''Document access has expired''), access_logs)
          else if document_status doc \<noteq> ''active''
          then (Inl (AuthorizationError ''Document is not active''), access_logs)
          else case template_row env of
            None \<Rightarrow>
              (Inl (NotFoundError
                 ''Biometric template not found. Please enroll your biometric first.''),
               access_logs)
          | Some tmpl \<Rightarrow>
              (case processResult env of
                 Inl e \<Rightarrow> (Inl (Error (''Biometric data processing failed: '' @ e)), access_logs)
               | Inr processedData \<Rightarrow>
                   (case verifyResult env of
                      Inl f \<Rightarrow>
                        (Inl (Error (''Biometric verification failed: '' @ error f)), access_logs)
                    | Inr v \<Rightarrow>
                        if \<not> verified v
                        then (Inl (AuthorizationError ''Biometric verification failed''),
                              insert_log access_logs
                                \<lparr>log_user_id = req_userId req, log_document_id = req_documentId req,
                                 access_type = ''biometric_verification'', success = False,
                                 failure_reason = Some ''biometric_mismatch'',
                                 confidence_score = Some (v_confidence v)\<rparr>)
                        else (case downloadResult env of
                           Inl e \<Rightarrow>
                             (Inl (Error (''Failed to retrieve document: '' @ e)), access_logs)
                         | Inr body \<Rightarrow>
                             (case extractResult env of
                                Inl e \<Rightarrow>
                                  (Inl (Error (''Document extraction failed: '' @ e)),
                                   access_logs)
                              | Inr extracted \<Rightarrow>
                                  (case decryptResult env of
                                     Inl e \<Rightarrow>
                                       (Inl (Error (''Document decryption failed: '' @ e)),
                                        access_logs)
                                   | Inr doc_data \<Rightarrow>
                                       (Inr \<lparr>res_title = title doc, res_data = doc_data,
                                              res_confidence = v_confidence v,
                                              res_quality = v_quality v\<rparr>,
                                        insert_log access_logs
                                          \<lparr>log_user_id = req_userId req,
                                           log_document_id = req_documentId req,
                                           access_type = ''biometric_verification'',
                                           success = True, failure_reason = None,
                                           confidence_score = Some (v_confidence v)\<rparr>)))))))"

text \<open>
  The handler: the two input checks come before the \<open>try\<close>; the \<open>catch\<close> logs a failed
  attempt with the error's message when both identifiers are non-empty, and rethrows.
\<close>

definition verify_route ::
    "request \<Rightarrow> outcomes \<Rightarrow> access_log list \<Rightarrow> (app_error + response) \<times> access_log list" where
  "verify_route req env access_logs =
     (case req_biometricData req of
        None \<Rightarrow> (Inl (ValidationError ''Biometric data is required''), access_logs)
      | Some bio \<Rightarrow>
          (case req_challenge req of
             None \<Rightarrow> (Inl (ValidationError ''Biometric challenge is required''), access_logs)
           | Some ch \<Rightarrow>
               (case verify_try req ch env access_logs of
                  (Inr res, logs) \<Rightarrow> (Inr res, logs)
                | (Inl err, logs) \<Rightarrow>
                    if req_documentId req \<noteq> [] \<and> req_userId req \<noteq> []
                    then (Inl err,
                          insert_log logs
                            \<lparr>log_user_id = req_userId req, log_document_id = req_documentId req,
                             access_type = ''biometric_verification'', success = False,
                             failure_reason = Some (message err),
                             confidence_score = None\<rparr>)
                    else (Inl err, logs))))"

section \<open>Encryption engine\<close>

text \<open>
  Both encryption services call Node's \<open>crypto\<close> module and \<open>JSON\<close>. What these
  libraries compute is not part of the repository, so they are parameters, collected in
  the record \<open>platform\<close>:
  \<^item> \<open>lib_sha256\<close> is \<open>createHash('sha256').update(x).digest()\<close>;
  \<^item> \<open>lib_pbkdf2\<close> is \<open>pbkdf2(password, salt, iterations, keylen, 'sha256')\<close>;
  \<^item> \<open>lib_cipher algorithm key options aad plaintext\<close> is \<open>createCipher(algorithm, key, options)\<close>,
    \<open>setAAD(aad)\<close> when there is one, \<open>update\<close> and \<open>final\<close>: the encrypted bytes and the
    tag of \<open>getAuthTag()\<close>; \<open>options\<close> is the \<open>iv\<close> handed over in the options object, if
    any;
  \<^item> \<open>lib_decipher algorithm key options aad tag encrypted\<close> is \<open>createDecipher\<close>, \<open>setAAD\<close>,
    \<open>setAuthTag(tag)\<close>, \<open>update\<close> and \<open>final\<close>: the decrypted bytes, or \<open>None\<close> when the
    library throws;
  \<^item> \<open>stringify_document\<close>, \<open>parse_document\<close>, \<open>stringify_package\<close>, \<open>parse_package\<close>
    are \<open>JSON.stringify\<close> and \<open>JSON.parse\<close> (with UTF-8 encoding and decoding) on the two
    metadata objects; \<open>parse\<close> is \<open>None\<close> when it throws;
  \<^item> \<open>lib_base64\<close> is \<open>toString('base64')\<close>.
  Random bytes and the clock are arguments of the functions that draw them.
\<close>

record document_metadata =
  meta_userId :: string
  meta_documentId :: string
  meta_timestamp :: nat
  meta_size :: nat
  meta_checksum :: string

record package_metadata =
  pm_algorithm :: string
  pm_timestamp :: nat
  ivLength :: nat
  tagLength :: nat
  encryptedLength :: nat
  hasKey :: bool
  hasSalt :: bool
  keyLength :: nat
  saltLength :: nat

record platform =
  lib_sha256 :: "byte list \<Rightarrow> byte list"
  lib_pbkdf2 :: "byte list \<Rightarrow> byte list \<Rightarrow> nat \<Rightarrow> nat \<Rightarrow> byte list"
  lib_cipher :: "string \<Rightarrow> byte list \<Rightarrow> byte list option \<Rightarrow> byte list option \<Rightarrow> byte list
               \<Rightarrow> byte list \<times> byte list"
  lib_decipher :: "string \<Rightarrow> byte list \<Rightarrow> byte list option \<Rightarrow> byte list option \<Rightarrow> byte list
                 \<Rightarrow> byte list \<Rightarrow> byte list option"
  stringify_document :: "document_metadata \<Rightarrow> byte list"
  parse_document :: "byte list \<Rightarrow> document_metadata option"
  stringify_package :: "package_metadata \<Rightarrow> byte list"
  parse_package :: "byte list \<Rightarrow> package_metadata option"
  lib_base64 :: "byte list \<Rightarrow> string"

subsection \<open>Buffers and strings\<close>

text \<open>A string is its UTF-8 bytes; \<open>Buffer.from(s, 'utf8')\<close> reads them off.\<close>

definition utf8 :: "string \<Rightarrow> byte list" where
  "utf8 s = map (\<lambda>c. of_nat (of_char c)) s"

text \<open>\<open>buf.slice(start, end)\<close> never throws: it clamps to the buffer.\<close>

definition slice :: "byte list \<Rightarrow> nat \<Rightarrow> nat \<Rightarrow> byte list" where
  "slice buf start end = take (end - start) (drop start buf)"

text \<open>\<open>writeUInt32BE\<close> throws a \<open>RangeError\<close> for a value of \<open>2 ^ 32\<close> or more.\<close>

definition writeUInt32BE :: "nat \<Rightarrow> byte list option" where
  "writeUInt32BE n =
     (if n < 2 ^ 32
      then Some [of_nat (n div 2 ^ 24), of_nat (n div 2 ^ 16), of_nat (n div 2 ^ 8), of_nat n]
      else None)"

text \<open>\<open>readUInt32BE(0)\<close> throws a \<open>RangeError\<close> on a buffer shorter than four bytes.\<close>

definition readUInt32BE :: "byte list \<Rightarrow> nat option" where
  "readUInt32BE buf =
     (case buf of
        b0 # b1 # b2 # b3 # _ \<Rightarrow>
          Some (unat b0 * 2 ^ 24 + unat b1 * 2 ^ 16 + unat b2 * 2 ^ 8 + unat b3)
      | _ \<Rightarrow> None)"

definition hex_digit :: "nat \<Rightarrow> char" where
  "hex_digit d = ''0123456789abcdef'' ! d"

text \<open>\<open>toString('hex')\<close>.\<close>

definition hex :: "byte list \<Rightarrow> string" where
  "hex buf = concat (map (\<lambda>b. [hex_digit (unat b div 16), hex_digit (unat b mod 16)]) buf)"

definition hex_value :: "char \<Rightarrow> nat option" where
  "hex_value c =
     (let n = of_char c
      in if 48 \<le> n \<and> n \<le> 57 then Some (n - 48)
         else if 97 \<le> n \<and> n \<le> 102 then Some (n - 87)
         else if 65 \<le> n \<and> n \<le> 70 then Some (n - 55)
         else None)"

text \<open>\<open>Buffer.from(s, 'hex')\<close>: pairs of hexadecimal digits, up to the first invalid pair.\<close>

fun from_hex :: "string \<Rightarrow> byte list" where
  "from_hex (a # b # rest) =
     (case (hex_value a, hex_value b) of
        (Some x, Some y) \<Rightarrow> of_nat (16 * x + y) # from_hex rest
      | _ \<Rightarrow> [])"
| "from_hex _ = []"

text \<open>The decimal digits of a number, as a template literal writes \<open>Date.now()\<close>.\<close>

function decimal :: "nat \<Rightarrow> string" where
  "decimal n =
     (if n < 10 then [''0123456789'' ! n]
      else decimal (n div 10) @ [''0123456789'' ! (n mod 10)])"
  by pat_completeness auto
termination
  by (relation "measure id") auto

declare decimal.simps [simp del]

text \<open>A JavaScript condition on a string or \<open>null\<close>: true for a non-empty string.\<close>

fun truthy :: "string option \<Rightarrow> bool" where
  "truthy None = False"
| "truthy (Some s) = (s \<noteq> [])"

subsection \<open>services/encryption.js: keys derived from the identifiers\<close>

definition algorithm :: string where "algorithm = ''aes-256-gcm''"
definition ivLength_const :: nat where "ivLength_const = 16"
definition tagLength_const :: nat where "tagLength_const = 16"
definition saltLength_const :: nat where "saltLength_const = 32"
definition keyLength_const :: nat where "keyLength_const = 32"

text \<open>
  \<open>encrypt(data, key)\<close>, with the bytes \<open>generateIV()\<close> draws as \<open>iv\<close>: the result's
  \<open>data\<close> is \<open>iv\<close>, tag and encrypted bytes in this order. (The result also carries the
  hexadecimal \<open>iv\<close> and \<open>tag\<close>, which no caller reads.)
\<close>

definition encrypt :: "platform \<Rightarrow> byte list \<Rightarrow> byte list \<Rightarrow> byte list \<Rightarrow> string + byte list" where
  "encrypt P iv data key =
     (let (encrypted, tag) = lib_cipher P algorithm key (Some iv) None data
      in Inr (iv @ tag @ encrypted))"

text \<open>\<open>decrypt(encryptedData, key)\<close>; a throwing decipher is caught and reported.\<close>

definition decrypt :: "platform \<Rightarrow> byte list \<Rightarrow> byte list \<Rightarrow> string + byte list" where
  "decrypt P encryptedData key =
     (let iv = slice encryptedData 0 ivLength_const;
          tag = slice encryptedData ivLength_const (ivLength_const + tagLength_const);
          encrypted = drop (ivLength_const + tagLength_const) encryptedData
      in case lib_decipher P algorithm key (Some iv) None tag encrypted of
           None \<Rightarrow> Inl ''Unsupported state or unable to authenticate data''
         | Some decrypted \<Rightarrow> Inr decrypted)"

definition deriveKeyFromPassword :: "platform \<Rightarrow> string \<Rightarrow> byte list \<Rightarrow> byte list" where
  "deriveKeyFromPassword P password salt = lib_pbkdf2 P (utf8 password) salt 100000 keyLength_const"

definition encryptWithPassword ::
    "platform \<Rightarrow> byte list \<Rightarrow> byte list \<Rightarrow> byte list \<Rightarrow> string \<Rightarrow> string + byte list" where
  "encryptWithPassword P salt iv data password =
     (let key = deriveKeyFromPassword P password salt
      in case encrypt P iv data key of
           Inl e \<Rightarrow> Inl e
         | Inr encrypted \<Rightarrow> Inr (salt @ encrypted))"

definition decryptWithPassword :: "platform \<Rightarrow> byte list \<Rightarrow> string \<Rightarrow> string + byte list" where
  "decryptWithPassword P encryptedData password =
     (let salt = slice encryptedData 0 saltLength_const;
          encrypted = drop saltLength_const encryptedData;
          key = deriveKeyFromPassword P password salt
      in decrypt P encrypted key)"

text \<open>
  \<open>generateDocumentKey(userId, documentId)\<close>: the SHA-256 digest of
  \<open>`${userId}:${documentId}:${Date.now()}`\<close>; \<open>now\<close> is what \<open>Date.now()\<close> returns at the call.
\<close>

definition generateDocumentKey :: "platform \<Rightarrow> nat \<Rightarrow> string \<Rightarrow> string \<Rightarrow> byte list" where
  "generateDocumentKey P now userId documentId =
     (let input = userId @ '':'' @ documentId @ '':'' @ decimal now
      in lib_sha256 P (utf8 input))"

definition createHash :: "platform \<Rightarrow> byte list \<Rightarrow> string" where
  "createHash P data = hex (lib_sha256 P data)"

record encrypted_document =
  enc_data :: "byte list"
  enc_metadata :: document_metadata
  encryptionMethod :: string

record decrypted_document =
  document_bytes :: "byte list"
  dec_metadata :: document_metadata

text \<open>
  \<open>encryptDocument(documentBuffer, userId, documentId, password)\<close>. The clock is read
  twice, for the metadata (\<open>now_meta\<close>) and inside \<open>generateDocumentKey\<close> (\<open>now_key\<close>);
  \<open>salt\<close> and \<open>iv\<close> are the random bytes drawn.
\<close>

definition encryptDocument ::
    "platform \<Rightarrow> nat \<Rightarrow> nat \<Rightarrow> byte list \<Rightarrow> byte list \<Rightarrow>
     byte list \<Rightarrow> string \<Rightarrow> string \<Rightarrow> string option \<Rightarrow> string + encrypted_document" where
  "encryptDocument P now_meta now_key salt iv documentBuffer userId documentId password =
     (let metadata = \<lparr>meta_userId = userId, meta_documentId = documentId,
                      meta_timestamp = now_meta, meta_size = length documentBuffer,
                      meta_checksum = createHash P documentBuffer\<rparr>;
          metadataBuffer = stringify_document P metadata
      in case writeUInt32BE (length metadataBuffer) of
           None \<Rightarrow> Inl ''The value of \"value\" is out of range.''
         | Some metadataLength \<Rightarrow>
             let combinedData = metadataLength @ metadataBuffer @ documentBuffer;
                 encryptionResult =
                   (if truthy password
                    then encryptWithPassword P salt iv combinedData (the password)
                    else let key = generateDocumentKey P now_key userId documentId
                         in encrypt P iv combinedData key)
             in case encryptionResult of
                  Inl e \<Rightarrow> Inl e
                | Inr data \<Rightarrow>
                    Inr \<lparr>enc_data = data, enc_metadata = metadata,
                         encryptionMethod = (if truthy password then ''password'' else ''key'')\<rparr>)"

text \<open>
  \<open>decryptDocument(encryptedData, userId, documentId, password)\<close>; \<open>now_key\<close> is the clock
  read by \<open>generateDocumentKey\<close> at decryption time.
\<close>

definition decryptDocument ::
    "platform \<Rightarrow> nat \<Rightarrow> byte list \<Rightarrow> string \<Rightarrow> string \<Rightarrow> string option
       \<Rightarrow> string + decrypted_document" where
  "decryptDocument P now_key encryptedData userId documentId password =
     (let decryptionResult =
            (if truthy password
             then decryptWithPassword P encryptedData (the password)
             else let key = generateDocumentKey P now_key userId documentId
                  in decrypt P encryptedData key)
      in case decryptionResult of
           Inl e \<Rightarrow> Inl e
         | Inr decryptedData \<Rightarrow>
             (case readUInt32BE decryptedData of
                None \<Rightarrow> Inl ''Attempt to access memory outside buffer bounds''
              | Some metadataLength \<Rightarrow>
                  let metadataBuffer = slice decryptedData 4 (4 + metadataLength);
                      documentBuffer = drop (4 + metadataLength) decryptedData
                  in case parse_document P metadataBuffer of
                       None \<Rightarrow> Inl ''Unexpected token in JSON''
                     | Some metadata \<Rightarrow>
                         if createHash P documentBuffer \<noteq> meta_checksum metadata
                         then Inl ''Document integrity check failed''
                         else if meta_userId metadata \<noteq> userId
                         then Inl ''Document ownership verification failed''
                         else Inr \<lparr>document_bytes = documentBuffer,
                                   dec_metadata = metadata\<rparr>))"

subsection \<open>services/encryptionService.js: the serialized package\<close>

record encrypted_package =
  pkg_encrypted :: "byte list"
  pkg_iv :: "byte list"
  pkg_tag :: "byte list"
  pkg_key :: "byte list option"
  pkg_salt :: "byte list option"
  pkg_algorithm :: string
  pkg_timestamp :: nat

record encryption_result =
  es_encryptedData :: "byte list"
  es_key :: string
  es_timestamp :: nat
  es_size :: nat

record decryption_result =
  documentBuffer_out :: "byte list"
  dr_algorithm :: string
  dr_timestamp :: nat
  dr_size :: nat

definition aad :: "byte list" where
  "aad = utf8 ''biosteg-locker-document''"

text \<open>The \<open>metadata\<close> object of \<open>serializeEncryptedPackage\<close>; a buffer, even an empty one, is truthy.\<close>

definition package_metadata_of :: "encrypted_package \<Rightarrow> package_metadata" where
  "package_metadata_of encryptedPackage =
     \<lparr>pm_algorithm = pkg_algorithm encryptedPackage,
      pm_timestamp = pkg_timestamp encryptedPackage,
      ivLength = length (pkg_iv encryptedPackage),
      tagLength = length (pkg_tag encryptedPackage),
      encryptedLength = length (pkg_encrypted encryptedPackage),
      hasKey = (pkg_key encryptedPackage \<noteq> None),
      hasSalt = (pkg_salt encryptedPackage \<noteq> None),
      keyLength = (case pkg_key encryptedPackage of Some k \<Rightarrow> length k | None \<Rightarrow> 0),
      saltLength = (case pkg_salt encryptedPackage of Some s \<Rightarrow> length s | None \<Rightarrow> 0)\<rparr>"

text \<open>
  \<open>serializeEncryptedPackage\<close>: length of the metadata, metadata, iv, tag, encrypted bytes,
  then the key if the package has one and the salt if it has one.
\<close>

definition serializeEncryptedPackage :: "platform \<Rightarrow> encrypted_package \<Rightarrow> string + byte list" where
  "serializeEncryptedPackage P encryptedPackage =
     (let metadataBuffer = stringify_package P (package_metadata_of encryptedPackage)
      in case writeUInt32BE (length metadataBuffer) of
           None \<Rightarrow> Inl ''The value of \"value\" is out of range.''
         | Some metadataLengthBuffer \<Rightarrow>
             Inr (metadataLengthBuffer @ metadataBuffer
                  @ pkg_iv encryptedPackage @ pkg_tag encryptedPackage
                  @ pkg_encrypted encryptedPackage
                  @ (case pkg_key encryptedPackage of Some k \<Rightarrow> k | None \<Rightarrow> [])
                  @ (case pkg_salt encryptedPackage of Some s \<Rightarrow> s | None \<Rightarrow> [])))"

text \<open>
  \<open>deserializeEncryptedPackage\<close> throws where \<open>readUInt32BE\<close> or \<open>JSON.parse\<close> does; the
  slices themselves never throw.
\<close>

definition deserializeEncryptedPackage ::
    "platform \<Rightarrow> byte list \<Rightarrow> string + encrypted_package" where
  "deserializeEncryptedPackage P serializedData =
     (case readUInt32BE serializedData of
        None \<Rightarrow> Inl ''Attempt to access memory outside buffer bounds''
      | Some metadataLength \<Rightarrow>
          let offset = 4;
              metadataBuffer = slice serializedData offset (offset + metadataLength)
          in case parse_package P metadataBuffer of
               None \<Rightarrow> Inl ''Unexpected token in JSON''
             | Some metadata \<Rightarrow>
                 let offset = offset + metadataLength;
                     iv = slice serializedData offset (offset + ivLength metadata);
                     offset = offset + ivLength metadata;
                     tag = slice serializedData offset (offset + tagLength metadata);
                     offset = offset + tagLength metadata;
                     encrypted = slice serializedData offset (offset + encryptedLength metadata);
                     offset = offset + encryptedLength metadata;
                     key = (if hasKey metadata
                            then Some (slice serializedData offset (offset + keyLength metadata))
                            else None);
                     offset = (if hasKey metadata then offset + keyLength metadata else offset);
                     salt = (if hasSalt metadata
                             then Some (slice serializedData offset (offset + saltLength metadata))
                             else None)
                 in Inr \<lparr>pkg_encrypted = encrypted, pkg_iv = iv, pkg_tag = tag,
                          pkg_key = key, pkg_salt = salt,
                          pkg_algorithm = pm_algorithm metadata,
                          pkg_timestamp = pm_timestamp metadata\<rparr>)"

text \<open>
  \<open>encryptDocument(documentBuffer, userPassword)\<close> of this service. The random draws are
  arguments: \<open>key_random\<close> for \<open>generateKey()\<close>, \<open>salt_derive\<close> for the salt the key is
  derived with, \<open>iv\<close> for \<open>generateIV()\<close> and \<open>salt_package\<close> for the second
  \<open>generateSalt()\<close>, the one stored in the package. The cipher is created without the iv.
\<close>

definition ES_encryptDocument ::
    "platform \<Rightarrow> byte list \<Rightarrow> byte list \<Rightarrow> byte list \<Rightarrow> byte list \<Rightarrow> nat \<Rightarrow>
     byte list \<Rightarrow> string option \<Rightarrow> string + encryption_result" where
  "ES_encryptDocument P key_random salt_derive iv salt_package now documentBuffer userPassword =
     (let key = (if truthy userPassword
                 then deriveKeyFromPassword P (the userPassword) salt_derive
                 else key_random);
          (encrypted, tag) = lib_cipher P algorithm key None (Some aad) documentBuffer;
          encryptedPackage =
            \<lparr>pkg_encrypted = encrypted, pkg_iv = iv, pkg_tag = tag,
             pkg_key = (if truthy userPassword then None else Some key),
             pkg_salt = (if truthy userPassword then Some salt_package else None),
             pkg_algorithm = algorithm, pkg_timestamp = now\<rparr>
      in case serializeEncryptedPackage P encryptedPackage of
           Inl e \<Rightarrow> Inl e
         | Inr serialized \<Rightarrow>
             Inr \<lparr>es_encryptedData = serialized, es_key = hex key,
                  es_timestamp = now, es_size = length serialized\<rparr>)"

text \<open>
  \<open>decryptDocument(encryptedData, key, userPassword)\<close> of this service. The key is derived
  from the password and the stored salt, or decoded from the hexadecimal \<open>key\<close> argument,
  or taken from the package; the decipher gets the algorithm, the key, the fixed
  associated data and the tag, and nothing else of the package.
\<close>

definition ES_decryptDocument ::
    "platform \<Rightarrow> byte list \<Rightarrow> string option \<Rightarrow> string option \<Rightarrow> string + decryption_result" where
  "ES_decryptDocument P encryptedData key userPassword =
     (case deserializeEncryptedPackage P encryptedData of
        Inl e \<Rightarrow> Inl e
      | Inr encryptedPackage \<Rightarrow>
          let decryptionKey =
                (if truthy userPassword \<and> pkg_salt encryptedPackage \<noteq> None
                 then Some (deriveKeyFromPassword P (the userPassword)
                              (the (pkg_salt encryptedPackage)))
                 else if truthy key then Some (from_hex (the key))
                 else if pkg_key encryptedPackage \<noteq> None then pkg_key encryptedPackage
                 else None)
          in case decryptionKey of
               None \<Rightarrow> Inl ''No valid decryption key provided''
             | Some k \<Rightarrow>
                 (case lib_decipher P (pkg_algorithm encryptedPackage) k None (Some aad)
                         (pkg_tag encryptedPackage) (pkg_encrypted encryptedPackage) of
                    None \<Rightarrow> Inl ''Unsupported state or unable to authenticate data''
                  | Some decrypted \<Rightarrow>
                      Inr \<lparr>documentBuffer_out = decrypted,
                           dr_algorithm = pkg_algorithm encryptedPackage,
                           dr_timestamp = pkg_timestamp encryptedPackage,
                           dr_size = length decrypted\<rparr>))"

subsection \<open>Biometric template registration: POST /register\<close>

text \<open>
  \<open>encryptTemplate(template, key)\<close> of the biometric service: \<open>templateJson\<close> is
  \<open>JSON.stringify(template)\<close>, \<open>iv\<close> the sixteen random bytes drawn after encryption.
\<close>

definition encryptTemplate :: "platform \<Rightarrow> byte list \<Rightarrow> byte list \<Rightarrow> byte list \<Rightarrow> string" where
  "encryptTemplate P iv templateJson key =
     (let (encrypted, tag) = lib_cipher P ''aes-256-gcm'' key None None templateJson
      in lib_base64 P (iv @ tag @ encrypted))"

datatype route_error = AppError string nat string

record processed_credential =
  pc_templateJson :: "byte list"
  pc_templateId :: string
  pc_confidence :: real
  pc_biometricType :: string

record template_row =
  row_user_id :: string
  row_biometric_type :: string
  template_data :: string
  template_id :: string
  encryption_key :: string
  row_confidence_score :: real

datatype db_write = Update template_row | Insert template_row

text \<open>
  The handler up to its database write. \<open>credentialData\<close> is the request field (absent:
  \<open>None\<close>), \<open>process_result\<close> what \<open>processWebAuthnCredential\<close> answers, \<open>encryptionKey\<close>
  the 32 random bytes, \<open>existingTemplate\<close> whether the user already has a row, and
  \<open>db_error\<close> whether the database reports an error. The write is an update of the
  existing row or an insert; both store the template and its key.
\<close>

definition register_route ::
    "platform \<Rightarrow> byte list \<Rightarrow> byte list \<Rightarrow> string \<Rightarrow> string \<Rightarrow> string option \<Rightarrow>
     string + processed_credential \<Rightarrow> bool \<Rightarrow> bool \<Rightarrow> route_error + db_write" where
  "register_route P encryptionKey iv userId biometricType credentialData process_result
       existingTemplate db_error =
     (case credentialData of
        None \<Rightarrow>
          Inl (AppError ''Biometric credential data is required'' 400 ''MISSING_CREDENTIAL_DATA'')
      | Some credential \<Rightarrow>
          (case process_result of
             Inl e \<Rightarrow>
               Inl (AppError (''Biometric processing failed: '' @ e) 500
                      ''BIOMETRIC_PROCESSING_FAILED'')
           | Inr processed \<Rightarrow>
               let encryptedTemplate =
                     encryptTemplate P iv (pc_templateJson processed) encryptionKey;
                   row = \<lparr>row_user_id = userId, row_biometric_type = biometricType,
                          template_data = encryptedTemplate,
                          template_id = pc_templateId processed,
                          encryption_key = hex encryptionKey,
                          row_confidence_score = pc_confidence processed\<rparr>
               in if existingTemplate
                  then if db_error
                       then Inl (AppError ''Failed to update biometric template'' 500
                                   ''TEMPLATE_UPDATE_ERROR'')
                       else Inr (Update row)
                  else if db_error
                       then Inl (AppError ''Failed to create biometric template'' 500
                                   ''TEMPLATE_CREATION_ERROR'')
                       else Inr (Insert row)))"

text \<open>The row a database write carries.\<close>

fun row_of :: "db_write \<Rightarrow> template_row" where
  "row_of (Update row) = row"
| "row_of (Insert row) = row"

subsection \<open>A stand-in platform\<close>

text \<open>
  A small platform on which the functions above can be run: the digest is the identity,
  the cipher masks every byte and its tag is the first sixteen bytes of the zero-padded
  key, and the decipher checks the tag against its own key. It is cryptographically
  worthless and serves only to run the services on concrete inputs.
\<close>

definition demo_tag :: "byte list \<Rightarrow> byte list" where
  "demo_tag key = take 16 (key @ replicate 16 0)"

text \<open>
  The stand-in for \<open>JSON\<close> on the package metadata: the algorithm name behind its length,
  then the five numbers as four bytes each and the two flags as one byte each.
\<close>

definition demo_stringify_package :: "package_metadata \<Rightarrow> byte list" where
  "demo_stringify_package m =
     of_nat (length (pm_algorithm m)) # utf8 (pm_algorithm m)
     @ the (writeUInt32BE (pm_timestamp m)) @ the (writeUInt32BE (ivLength m))
     @ the (writeUInt32BE (tagLength m)) @ the (writeUInt32BE (encryptedLength m))
     @ the (writeUInt32BE (keyLength m)) @ the (writeUInt32BE (saltLength m))
     @ [if hasKey m then 1 else 0, if hasSalt m then 1 else 0]"

definition demo_parse_package :: "byte list \<Rightarrow> package_metadata option" where
  "demo_parse_package buf =
     (case buf of
        [] \<Rightarrow> None
      | n # rest \<Rightarrow>
          let name = take (unat n) rest; fields = drop (unat n) rest
          in if length name = unat n \<and> length fields = 26
             then Some \<lparr>pm_algorithm = map (\<lambda>b. char_of (unat b)) name,
                        pm_timestamp = the (readUInt32BE fields),
                        ivLength = the (readUInt32BE (drop 4 fields)),
                        tagLength = the (readUInt32BE (drop 8 fields)),
                        encryptedLength = the (readUInt32BE (drop 12 fields)),
                        hasKey = (fields ! 24 \<noteq> 0),
                        hasSalt = (fields ! 25 \<noteq> 0),
                        keyLength = the (readUInt32BE (drop 16 fields)),
                        saltLength = the (readUInt32BE (drop 20 fields))\<rparr>
             else None)"

definition demo_platform :: platform where
  "demo_platform =
     \<lparr>lib_sha256 = (\<lambda>x. x),
      lib_pbkdf2 = (\<lambda>password salt iterations keylen.
                      take keylen (password @ salt @ replicate keylen 0)),
      lib_cipher = (\<lambda>alg key options aad plaintext.
                      (map (\<lambda>b. b XOR 0x5A) plaintext, demo_tag key)),
      lib_decipher = (\<lambda>alg key options aad tag encrypted.
                        if tag = demo_tag key then Some (map (\<lambda>b. b XOR 0x5A) encrypted)
                        else None),
      stringify_document = (\<lambda>m. []),
      parse_document = (\<lambda>b. None),
      stringify_package = demo_stringify_package,
      parse_package = demo_parse_package,
      lib_base64 = (\<lambda>b. hex b)\<rparr>"

section \<open>Codec: binary digits\<close>

lemma length_format_08b: "length (format_08b b) = 8"
  by (simp add: format_08b_def)

lemma set_format_08b: "set (format_08b b) \<subseteq> {CHR ''0'', CHR ''1''}"
  by (auto simp: format_08b_def)

lemma int_2_horner:
  "foldl (\<lambda>n c. 2 * n + (if c = CHR ''1'' then 1 else 0)) 0 s
     = horner_sum (\<lambda>c. if c = CHR ''1'' then 1 else (0::nat)) 2 (rev s)"
  by (induction s rule: rev_induct) simp_all

lemma upt_8: "[0..<8] = [0, 1, 2, 3, 4, 5, 6, 7::nat]"
  by code_simp

lemma rev_format_08b:
  "rev (format_08b b) = map (\<lambda>i. if bit b i then CHR ''1'' else CHR ''0'') [0..<8]"
  unfolding upt_8 by (simp add: format_08b_def)

lemma int_2_format_08b_unat: "int_2 (format_08b b) = unat b"
proof -
  have "int_2 (format_08b b) = horner_sum of_bool 2 (map (bit (unat b)) [0..<8])"
    unfolding int_2_def int_2_horner rev_format_08b
  proof -
    have c: "\<And>P. ((if P then CHR ''1'' else CHR ''0'') = CHR ''1'') = P" by simp
    show "horner_sum (\<lambda>c. if c = CHR ''1'' then 1 else (0::nat)) 2
            (map (\<lambda>i. if bit b i then CHR ''1'' else CHR ''0'') [0..<8])
          = horner_sum of_bool 2 (map (bit (unat b)) [0..<8])"
      by (simp add: horner_sum_eq_sum bit_unsigned_iff o_def of_bool_def c)
  qed
  also have "\<dots> = take_bit 8 (unat b)"
    by (rule horner_sum_bit_eq_take_bit)
  also have "\<dots> = unat b"
    using unsigned_less [of b] by (simp add: take_bit_nat_eq_self_iff)
  finally show ?thesis .
qed

lemma int_2_format_08b: "of_nat (int_2 (format_08b b)) = b"
  by (simp add: int_2_format_08b_unat)

lemma length_binary_of: "length (binary_of data) = 8 * length data"
  by (induction data) (simp_all add: binary_of_def length_format_08b)

lemma set_binary_of: "set (binary_of data) \<subseteq> {CHR ''0'', CHR ''1''}"
  using set_format_08b by (fastforce simp: binary_of_def)

lemma set_delimiter: "set delimiter \<subseteq> {CHR ''0'', CHR ''1''}"
  by (simp add: delimiter_def)

lemma last_delimiter: "last delimiter = CHR ''0''"
  by (simp add: delimiter_def)

lemma set_butlast_delimiter: "set (butlast delimiter) = {CHR ''1''}"
  by (simp add: delimiter_def)

lemma length_delimiter: "length delimiter = 16"
  by (simp add: delimiter_def)

subsection \<open>Packing digits into bytes\<close>

lemma to_bytes_binary_of_aux:
  "to_bytes (pre @ binary_of data) (length pre) = data"
proof (induction data arbitrary: pre)
  case Nil
  show ?case by (subst to_bytes.simps) (simp add: binary_of_def)
next
  case (Cons b data)
  have "to_bytes (pre @ binary_of (b # data)) (length pre)
          = [of_nat (int_2 (format_08b b))]
            @ to_bytes ((pre @ format_08b b) @ binary_of data) (length pre + 8)"
    by (subst to_bytes.simps) (simp add: binary_of_def length_format_08b)
  also have "\<dots> = b # data"
    using Cons.IH [of "pre @ format_08b b"] by (simp add: int_2_format_08b length_format_08b)
  finally show ?case .
qed

lemma to_bytes_binary_of: "to_bytes (binary_of data) 0 = data"
  using to_bytes_binary_of_aux [of "[]" data] by simp

lemma pad_zeros_binary_of: "pad_zeros (binary_of data) = binary_of data"
  by (simp add: pad_zeros_def length_binary_of)

subsection \<open>The least significant bit of a channel value\<close>

lemma str_lsb_char: "str_lsb pixel = [lsb_char pixel]"
  by (simp add: str_lsb_def lsb_char_def)

lemma and_FE_and_1: "((p::byte) AND 0xFE) AND 1 = 0"
  by (simp add: and.assoc)

lemma or_1_and_1: "(((p::byte) AND 0xFE) OR 1) AND 1 = 1"
  by (simp add: bit.conj_disj_distrib2 and.assoc)

lemma lsb_char_embed:
  "c = CHR ''0'' \<or> c = CHR ''1'' \<Longrightarrow> lsb_char ((p AND 0xFE) OR int_bit c) = c"
  by (auto simp: lsb_char_def int_bit_def and_FE_and_1 or_1_and_1)

lemma high_bits_embed: "((p AND 0xFE) OR int_bit c) AND 0xFE = (p::byte) AND 0xFE"
  by (simp add: int_bit_def bit.conj_disj_distrib2 and.assoc)

subsection \<open>The embedding loop\<close>

lemma embed_loop_Inr:
  "i + length bits \<le> length flat_img \<Longrightarrow>
   \<exists>r. embed_loop flat_img i bits = Inr r \<and> length r = length flat_img \<and>
       (\<forall>j<length flat_img. r ! j =
          (if i \<le> j \<and> j < i + length bits
           then (flat_img ! j AND 0xFE) OR int_bit (bits ! (j - i)) else flat_img ! j))"
proof (induction bits arbitrary: flat_img i)
  case Nil
  then show ?case by auto
next
  case (Cons b bits)
  let ?f = "flat_img[i := (flat_img ! i AND 0xFE) OR int_bit b]"
  from Cons.prems have i: "i < length flat_img" and le: "Suc i + length bits \<le> length ?f"
    by simp_all
  from Cons.IH [OF le] obtain r where
    r: "embed_loop ?f (Suc i) bits = Inr r" "length r = length ?f"
    and nth: "\<forall>j<length ?f. r ! j =
          (if Suc i \<le> j \<and> j < Suc i + length bits
           then (?f ! j AND 0xFE) OR int_bit (bits ! (j - Suc i)) else ?f ! j)"
    by blast
  have "embed_loop flat_img i (b # bits) = Inr r"
    using i r(1) by simp
  moreover have "length r = length flat_img"
    using r(2) by simp
  moreover have "\<forall>j<length flat_img. r ! j =
          (if i \<le> j \<and> j < i + length (b # bits)
           then (flat_img ! j AND 0xFE) OR int_bit ((b # bits) ! (j - i)) else flat_img ! j)"
  proof (intro allI impI)
    fix j assume j: "j < length flat_img"
    show "r ! j = (if i \<le> j \<and> j < i + length (b # bits)
           then (flat_img ! j AND 0xFE) OR int_bit ((b # bits) ! (j - i)) else flat_img ! j)"
    proof (cases "j = i")
      case True
      then show ?thesis using nth j by simp
    next
      case False
      then show ?thesis using nth j by (auto simp: nth_Cons' Suc_diff_Suc)
    qed
  qed
  ultimately show ?case by blast
qed

subsection \<open>The extraction loop\<close>

lemma delimiter_no_border:
  assumes "delimiter = d1 @ d2" "delimiter = d2 @ r" "d2 \<noteq> []" "r \<noteq> []"
  shows False
proof -
  have "butlast delimiter = d2 @ butlast r"
    using assms(2,4) by (metis butlast_append)
  then have "set d2 \<subseteq> {CHR ''1''}"
    using set_butlast_delimiter by (metis Un_upper1 set_append)
  moreover have "last d2 = CHR ''0''"
    using assms(1,3) last_delimiter by (metis last_appendR)
  moreover have "last d2 \<in> set d2"
    using assms(3) by simp
  ultimately show False by auto
qed

lemma no_early_delimiter:
  assumes nosub: "\<not> sublist delimiter bits"
    and pre: "prefix p (bits @ delimiter)" and ne: "p \<noteq> bits @ delimiter"
  shows "\<not> suffix delimiter p"
proof
  assume "suffix delimiter p"
  then obtain q where p: "p = q @ delimiter" by (auto simp: suffix_def)
  from pre obtain r where r: "bits @ delimiter = p @ r" by (auto simp: prefix_def)
  with ne have rne: "r \<noteq> []" by auto
  from r p have eq: "bits @ delimiter = q @ (delimiter @ r)" by simp
  then consider us where "bits = q @ us" "us @ delimiter = delimiter @ r"
    | us where "bits @ us = q" "delimiter = us @ delimiter @ r"
    by (auto simp: append_eq_append_conv2)
  then show False
  proof cases
    case 1
    from 1(2) consider vs where "us = delimiter @ vs"
      | vs where "us @ vs = delimiter" "delimiter = vs @ r"
      by (auto simp: append_eq_append_conv2)
    then show False
    proof cases
      case 1
      with \<open>bits = q @ us\<close> have "bits = q @ delimiter @ vs" by simp
      then have "sublist delimiter bits" by (auto simp: sublist_def)
      with nosub show False by simp
    next
      case 2
      show False
      proof (cases "vs = []")
        case True
        with 2 \<open>bits = q @ us\<close> have "bits = q @ delimiter @ []" by simp
        then have "sublist delimiter bits" unfolding sublist_def by blast
        with nosub show False by simp
      next
        case False
        from delimiter_no_border [OF 2(1) [symmetric] 2(2) False rne] show False .
      qed
    qed
  next
    case 2
    from 2(2) have "length delimiter = length (us @ delimiter @ r)"
      by (rule arg_cong)
    then have "length delimiter = length us + length delimiter + length r"
      by simp
    with rne show False by simp
  qed
qed

lemma extract_loop_step:
  "extract_loop (x # xs) acc =
     (if suffix delimiter (acc @ [lsb_char x])
      then take (length (acc @ [lsb_char x]) - length delimiter) (acc @ [lsb_char x])
      else extract_loop xs (acc @ [lsb_char x]))"
  by (simp only: extract_loop.simps Let_def str_lsb_char)

lemma extract_loop_finds:
  assumes "map lsb_char xs = s @ rest" "acc @ s = bits @ delimiter" "s \<noteq> []"
    and "\<not> sublist delimiter bits"
  shows "extract_loop xs acc = bits"
  using assms
proof (induction xs arbitrary: acc s)
  case Nil
  then show ?case by simp
next
  case (Cons x xs)
  from Cons.prems(1,3) obtain s' where s: "s = lsb_char x # s'" and xs: "map lsb_char xs = s' @ rest"
    by (cases s) auto
  let ?acc = "acc @ [lsb_char x]"
  have acc: "?acc @ s' = bits @ delimiter"
    using Cons.prems(2) s by simp
  show ?case
  proof (cases "s' = []")
    case True
    then have "?acc = bits @ delimiter" using acc by simp
    then show ?thesis
      unfolding extract_loop_step by (simp add: suffix_def)
  next
    case False
    have "prefix ?acc (bits @ delimiter)"
      using acc by (metis prefixI)
    moreover have "?acc \<noteq> bits @ delimiter"
      using acc False by (metis append_self_conv)
    ultimately have "\<not> suffix delimiter ?acc"
      using no_early_delimiter [OF Cons.prems(4)] by blast
    then show ?thesis
      unfolding extract_loop_step using Cons.IH [OF xs acc False Cons.prems(4)]
      by (simp only: if_False)
  qed
qed

lemma extract_loop_exhausted:
  "\<not> sublist delimiter (acc @ map lsb_char xs) \<Longrightarrow> extract_loop xs acc = acc @ map lsb_char xs"
proof (induction xs arbitrary: acc)
  case Nil
  show ?case by simp
next
  case (Cons x xs)
  have "\<not> suffix delimiter (acc @ [lsb_char x])"
  proof
    assume "suffix delimiter (acc @ [lsb_char x])"
    then obtain q where "acc @ [lsb_char x] = q @ delimiter" unfolding suffix_def by blast
    then have "(acc @ [lsb_char x]) @ map lsb_char xs = (q @ delimiter) @ map lsb_char xs"
      by (rule arg_cong)
    then have "acc @ map lsb_char (x # xs) = q @ delimiter @ map lsb_char xs" by simp
    then have "sublist delimiter (acc @ map lsb_char (x # xs))" unfolding sublist_def by blast
    with Cons.prems show False by blast
  qed
  moreover have "\<not> sublist delimiter ((acc @ [lsb_char x]) @ map lsb_char xs)"
    using Cons.prems by simp
  then have "extract_loop xs (acc @ [lsb_char x]) = (acc @ [lsb_char x]) @ map lsb_char xs"
    by (rule Cons.IH)
  ultimately show ?case
    unfolding extract_loop_step by (simp only: if_False) simp
qed

lemma div_8_step: "8 \<le> (n::nat) - i \<Longrightarrow> (n - i) div 8 = Suc ((n - (i + 8)) div 8)"
  by (simp add: le_div_geq)

lemma length_to_bytes_step:
  "i < length s \<Longrightarrow> length (to_bytes s i)
     = (if 8 \<le> length s - i then 1 else 0) + length (to_bytes s (i + 8))"
  by (subst to_bytes.simps) (simp add: Let_def min_def)

lemma length_to_bytes: "length (to_bytes s i) = (length s - i) div 8"
proof (induction s i rule: to_bytes.induct)
  case (1 s i)
  show ?case
  proof (cases "i < length s")
    case True
    note IH = 1 [OF True]
    show ?thesis
    proof (cases "8 \<le> length s - i")
      case True
      have "length (to_bytes s i) = Suc (length (to_bytes s (i + 8)))"
        using length_to_bytes_step [OF \<open>i < length s\<close>] True by simp
      also have "\<dots> = Suc ((length s - (i + 8)) div 8)"
        by (simp only: IH)
      also have "\<dots> = (length s - i) div 8"
        by (rule div_8_step [OF True, symmetric])
      finally show ?thesis .
    next
      case False
      have "length (to_bytes s i) = length (to_bytes s (i + 8))"
        using length_to_bytes_step [OF \<open>i < length s\<close>] False by simp
      also have "\<dots> = (length s - (i + 8)) div 8"
        by (simp only: IH)
      also have "\<dots> = (length s - i) div 8"
        using False by simp
      finally show ?thesis .
    qed
  next
    case False
    then have "to_bytes s i = []" by (subst to_bytes.simps) (simp only: if_False)
    then show ?thesis using False by simp
  qed
qed

lemma round_up_8: "n mod 8 \<noteq> 0 \<Longrightarrow> (n::nat) + (8 - n mod 8) = 8 * ((n + 7) div 8)"
proof -
  assume a: "n mod 8 \<noteq> 0"
  obtain q r where n: "n = 8 * q + r" and r: "r < 8" 
    by (metis mod_less_divisor mult_div_mod_eq zero_less_numeral)
  with a have r0: "r \<noteq> 0" by auto
  have m: "n mod 8 = r" using n r by simp
  have "(n + 7) div 8 = q + 1" using n r r0 by simp
  with m n r show ?thesis by simp
qed

lemma round_8: "n mod 8 = 0 \<Longrightarrow> (n::nat) = 8 * ((n + 7) div 8)"
  by (auto elim!: dvdE simp: mod_eq_0_iff_dvd)

lemma length_pad_zeros: "length (pad_zeros s) = 8 * ((length s + 7) div 8)"
proof (cases "length s mod 8 = 0")
  case True
  then show ?thesis using round_8 [OF True] by (simp add: pad_zeros_def)
next
  case False
  then show ?thesis using round_up_8 [OF False] by (simp add: pad_zeros_def)
qed

subsection \<open>What a successful embedding writes\<close>

lemma embed_fits:
  assumes img: "fs image_path = Some img" and wf: "wf_image img"
    and fits: "8 * length data + 16 \<le> rows img * cols img * channels img"
  shows "\<exists>r. embed_data_in_image fs image_path data output_path
                = (None, fs(output_path \<mapsto> img\<lparr>flat := r\<rparr>))
             \<and> length r = length (flat img)
             \<and> (\<forall>j<length (flat img). r ! j =
                  (if j < 8 * length data + 16
                   then (flat img ! j AND 0xFE) OR int_bit ((binary_of data @ delimiter) ! j)
                   else flat img ! j))"
proof -
  have len: "length (binary_of data @ delimiter) = 8 * length data + 16"
    by (simp add: length_binary_of length_delimiter)
  with fits wf have "0 + length (binary_of data @ delimiter) \<le> length (flat img)"
    by (simp add: wf_image_def)
  from embed_loop_Inr [OF this] obtain r where
    r: "embed_loop (flat img) 0 (binary_of data @ delimiter) = Inr r"
       "length r = length (flat img)"
       "\<forall>j<length (flat img). r ! j =
          (if 0 \<le> j \<and> j < 0 + length (binary_of data @ delimiter)
           then (flat img ! j AND 0xFE) OR int_bit ((binary_of data @ delimiter) ! (j - 0))
           else flat img ! j)"
    by blast
  have "embed_data_in_image fs image_path data output_path
          = (None, fs(output_path \<mapsto> img\<lparr>flat := r\<rparr>))"
    using img fits len r(1) by (simp add: embed_data_in_image_def imread_def imwrite_def Let_def)
  with r(2,3) len show ?thesis by auto
qed

lemma embedded_lsbs:
  assumes len: "length r = length xs" and n: "length bits \<le> length xs"
    and bits: "set bits \<subseteq> {CHR ''0'', CHR ''1''}"
    and nth: "\<forall>j<length xs. r ! j =
                (if j < length bits then (xs ! j AND 0xFE) OR int_bit (bits ! j) else xs ! j)"
  shows "map lsb_char r = bits @ map lsb_char (drop (length bits) xs)"
proof (rule nth_equalityI)
  show "length (map lsb_char r) = length (bits @ map lsb_char (drop (length bits) xs))"
    using len n by simp
next
  fix j assume "j < length (map lsb_char r)"
  then have j: "j < length xs" using len by simp
  show "map lsb_char r ! j = (bits @ map lsb_char (drop (length bits) xs)) ! j"
  proof (cases "j < length bits")
    case True
    then have "bits ! j \<in> {CHR ''0'', CHR ''1''}" using bits by (meson nth_mem subsetD)
    then have "lsb_char ((xs ! j AND 0xFE) OR int_bit (bits ! j)) = bits ! j"
      by (intro lsb_char_embed) auto
    then show ?thesis using True j len nth by (simp add: nth_append)
  next
    case False
    then show ?thesis using j len nth by (simp add: nth_append)
  qed
qed


lemma embed_fits_lsbs:
  assumes img: "fs image_path = Some img" and wf: "wf_image img"
    and fits: "8 * length data + 16 \<le> rows img * cols img * channels img"
  shows "\<exists>r. embed_data_in_image fs image_path data output_path
                = (None, fs(output_path \<mapsto> img\<lparr>flat := r\<rparr>))
             \<and> map lsb_char r = (binary_of data @ delimiter)
                   @ map lsb_char (drop (8 * length data + 16) (flat img))"
proof -
  let ?bits = "binary_of data @ delimiter"
  have len: "length ?bits = 8 * length data + 16"
    by (simp add: length_binary_of length_delimiter)
  from embed_fits [where fs = fs and image_path = image_path and output_path = output_path, OF img wf fits] obtain r where
    r: "embed_data_in_image fs image_path data output_path
          = (None, fs(output_path \<mapsto> img\<lparr>flat := r\<rparr>))"
       "length r = length (flat img)"
       "\<forall>j<length (flat img). r ! j =
          (if j < 8 * length data + 16
           then (flat img ! j AND 0xFE) OR int_bit (?bits ! j) else flat img ! j)"
    by blast
  have "length ?bits \<le> length (flat img)"
    using len fits wf by (simp add: wf_image_def)
  moreover have "set ?bits \<subseteq> {CHR ''0'', CHR ''1''}"
    using set_binary_of [of data] set_delimiter by simp
  moreover have "\<forall>j<length (flat img). r ! j =
          (if j < length ?bits
           then (flat img ! j AND 0xFE) OR int_bit (?bits ! j) else flat img ! j)"
    using r(3) unfolding len .
  ultimately have "map lsb_char r = ?bits @ map lsb_char (drop (length ?bits) (flat img))"
    using r(2) by (intro embedded_lsbs)
  with r(1) len show ?thesis by metis
qed

lemma extract_after_write:
  "extract_data_from_image (fs(output_path \<mapsto> img)) output_path
     = Inr (to_bytes (pad_zeros (extract_loop (flat img) [])) 0)"
  by (simp add: extract_data_from_image_def imread_def)

section \<open>Codec: the claims\<close>

text \<open>
  C1 (amended). A payload whose binary digits do not contain the sixteen delimiter digits
  anywhere, embedded in any readable carrier with at least \<open>8 * length data + 16\<close> channel
  values, is embedded without error and extracted from the written image byte for byte,
  whatever the carrier's content.
\<close>

theorem codec_round_trip:
  assumes "fs image_path = Some img" and "wf_image img"
    and "8 * length data + 16 \<le> rows img * cols img * channels img"
    and "\<not> sublist delimiter (binary_of data)"
  shows "fst (embed_data_in_image fs image_path data output_path) = None
       \<and> extract_data_from_image (snd (embed_data_in_image fs image_path data output_path))
            output_path = Inr data"
proof -
  from embed_fits_lsbs [where fs = fs and image_path = image_path and output_path = output_path, OF assms(1-3)] obtain r where
    r: "embed_data_in_image fs image_path data output_path
          = (None, fs(output_path \<mapsto> img\<lparr>flat := r\<rparr>))"
    and lsbs: "map lsb_char r = (binary_of data @ delimiter)
                   @ map lsb_char (drop (8 * length data + 16) (flat img))"
    by blast
  have ne: "binary_of data @ delimiter \<noteq> []"
    by (simp add: delimiter_def)
  have "extract_loop r [] = binary_of data"
    by (rule extract_loop_finds [OF lsbs _ ne assms(4)]) simp
  then have "extract_data_from_image (fs(output_path \<mapsto> img\<lparr>flat := r\<rparr>)) output_path
               = Inr data"
    by (simp add: extract_after_write pad_zeros_binary_of to_bytes_binary_of)
  with r show ?thesis by simp
qed

theorem codec_round_trip_witness:
  "extract_data_from_image
     (snd (embed_data_in_image
        [''carrier.png'' \<mapsto> \<lparr>rows = 1, cols = 11, channels = 3, flat = replicate 33 7\<rparr>]
        ''carrier.png'' [0xF1, 0x3E] ''stego.png'')) ''stego.png'' = Inr [0xF1, 0x3E]"
proof -
  let ?img = "\<lparr>rows = 1, cols = 11, channels = 3, flat = replicate 33 (7::byte)\<rparr>"
  have h1: "[''carrier.png'' \<mapsto> ?img] ''carrier.png'' = Some ?img" by simp
  have h2: "wf_image ?img" by (simp add: wf_image_def)
  have h3: "8 * length [0xF1, 0x3E :: byte] + 16 \<le> rows ?img * cols ?img * channels ?img"
    by simp
  have h4: "\<not> sublist delimiter (binary_of [0xF1, 0x3E])" by code_simp
  from codec_round_trip [where fs = "[''carrier.png'' \<mapsto> ?img]" and image_path = "''carrier.png''"
      and output_path = "''stego.png''", OF h1 h2 h3 h4]
  show ?thesis by simp
qed

theorem codec_round_trip_counterexample:
  "wf_image \<lparr>rows = 1, cols = 11, channels = 3, flat = replicate 33 0\<rparr>
   \<and> 8 * length [0xFF, 0xFE :: byte] + 16 \<le> (1::nat) * 11 * 3
   \<and> fst (embed_data_in_image
        [''carrier.png'' \<mapsto> \<lparr>rows = 1, cols = 11, channels = 3, flat = replicate 33 0\<rparr>]
        ''carrier.png'' [0xFF, 0xFE] ''stego.png'') = None
   \<and> extract_data_from_image
     (snd (embed_data_in_image
        [''carrier.png'' \<mapsto> \<lparr>rows = 1, cols = 11, channels = 3, flat = replicate 33 0\<rparr>]
        ''carrier.png'' [0xFF, 0xFE] ''stego.png'')) ''stego.png'' = Inr []
   \<and> extract_data_from_image
     (snd (embed_data_in_image
        [''carrier.png'' \<mapsto> \<lparr>rows = 1, cols = 11, channels = 3, flat = replicate 33 0\<rparr>]
        ''carrier.png'' [0xFF, 0xFE] ''stego.png'')) ''stego.png'' \<noteq> Inr [0xFF, 0xFE]"
  by code_simp

text \<open>
  C4 (amended). For every readable stego image whose least significant bits never contain
  the delimiter, extraction does not fail: it returns all the collected bits, padded with
  zero digits to a byte boundary and packed into \<open>(n + 7) div 8\<close> bytes, for the
  \<open>n\<close> channel values of the image.
\<close>

theorem extract_without_delimiter:
  assumes "fs image_path = Some img"
    and "\<not> sublist delimiter (map lsb_char (flat img))"
  shows "extract_data_from_image fs image_path
           = Inr (to_bytes (pad_zeros (map lsb_char (flat img))) 0)
       \<and> length (to_bytes (pad_zeros (map lsb_char (flat img))) 0)
           = (length (flat img) + 7) div 8"
proof -
  have "extract_loop (flat img) [] = [] @ map lsb_char (flat img)"
    using assms(2) by (intro extract_loop_exhausted) simp
  then have "extract_data_from_image fs image_path
               = Inr (to_bytes (pad_zeros (map lsb_char (flat img))) 0)"
    using assms(1) by (simp add: extract_data_from_image_def imread_def)
  moreover have "length (to_bytes (pad_zeros (map lsb_char (flat img))) 0)
                   = (length (flat img) + 7) div 8"
    by (simp add: length_to_bytes length_pad_zeros)
  ultimately show ?thesis by simp
qed

theorem extract_without_delimiter_witness:
  "extract_data_from_image
     [''stego.png'' \<mapsto> \<lparr>rows = 1, cols = 1, channels = 3, flat = [1, 0, 1]\<rparr>] ''stego.png''
     = Inr [0xA0]"
proof -
  let ?img = "\<lparr>rows = 1, cols = 1, channels = 3, flat = [1, 0, 1 :: byte]\<rparr>"
  have h1: "[''stego.png'' \<mapsto> ?img] ''stego.png'' = Some ?img" by simp
  have h2: "\<not> sublist delimiter (map lsb_char (flat ?img))" by code_simp
  have v: "to_bytes (pad_zeros (map lsb_char (flat ?img))) 0 = [0xA0]" by code_simp
  from extract_without_delimiter [where fs = "[''stego.png'' \<mapsto> ?img]"
      and image_path = "''stego.png''", OF h1 h2]
  show ?thesis unfolding v by simp
qed

theorem extract_without_delimiter_counterexample:
  "\<not> sublist delimiter (concat (map str_lsb [0, 0, 0]))
   \<and> extract_data_from_image
       [''stego.png'' \<mapsto> \<lparr>rows = 1, cols = 1, channels = 3, flat = [0, 0, 0]\<rparr>] ''stego.png''
       = Inr [0]"
  by code_simp

text \<open>
  C5. For a readable carrier, embedding succeeds when the payload's bit length plus the
  sixteen delimiter bits is at most \<open>rows * cols * channels\<close>; when it is larger the
  call ends in the capacity error and the files are exactly what they were: the check
  comes before any channel value is changed and nothing is written.
\<close>

theorem embed_capacity_boundary:
  assumes "fs image_path = Some img" and "wf_image img"
  shows "(8 * length data + 16 \<le> rows img * cols img * channels img \<longrightarrow>
            fst (embed_data_in_image fs image_path data output_path) = None)
       \<and> (8 * length data + 16 > rows img * cols img * channels img \<longrightarrow>
            embed_data_in_image fs image_path data output_path
              = (Some (ValueError ''Image too small to hold the data''), fs))"
proof (intro conjI impI)
  assume "8 * length data + 16 \<le> rows img * cols img * channels img"
  from embed_fits [where fs = fs and image_path = image_path and output_path = output_path,
      OF assms this]
  show "fst (embed_data_in_image fs image_path data output_path) = None"
    by auto
next
  assume "8 * length data + 16 > rows img * cols img * channels img"
  then show "embed_data_in_image fs image_path data output_path
               = (Some (ValueError ''Image too small to hold the data''), fs)"
    using assms(1)
    by (simp add: embed_data_in_image_def imread_def Let_def length_binary_of length_delimiter)
qed

theorem embed_capacity_boundary_witness:
  "fst (embed_data_in_image
          [''carrier.png'' \<mapsto> \<lparr>rows = 4, cols = 8, channels = 3, flat = replicate 96 5\<rparr>]
          ''carrier.png'' [1, 2, 3, 4, 5, 6, 7, 8, 9, 10] ''stego.png'') = None
   \<and> embed_data_in_image
          [''carrier.png'' \<mapsto> \<lparr>rows = 4, cols = 8, channels = 3, flat = replicate 96 5\<rparr>]
          ''carrier.png'' [1, 2, 3, 4, 5, 6, 7, 8, 9, 10, 11] ''stego.png''
       = (Some (ValueError ''Image too small to hold the data''),
          [''carrier.png'' \<mapsto> \<lparr>rows = 4, cols = 8, channels = 3, flat = replicate 96 5\<rparr>])"
proof -
  let ?img = "\<lparr>rows = 4, cols = 8, channels = 3, flat = replicate 96 (5::byte)\<rparr>"
  let ?fs = "[''carrier.png'' \<mapsto> ?img]"
  have h1: "?fs ''carrier.png'' = Some ?img" by simp
  have h2: "wf_image ?img" by (simp add: wf_image_def)
  have fits: "8 * length [1, 2, 3, 4, 5, 6, 7, 8, 9, 10 :: byte] + 16
                \<le> rows ?img * cols ?img * channels ?img" by simp
  have over: "8 * length [1, 2, 3, 4, 5, 6, 7, 8, 9, 10, 11 :: byte] + 16
                > rows ?img * cols ?img * channels ?img" by simp
  from embed_capacity_boundary [where fs = ?fs and image_path = "''carrier.png''"
      and output_path = "''stego.png''" and data = "[1, 2, 3, 4, 5, 6, 7, 8, 9, 10]", OF h1 h2]
    fits
  have a: "fst (embed_data_in_image ?fs ''carrier.png'' [1, 2, 3, 4, 5, 6, 7, 8, 9, 10]
             ''stego.png'') = None"
    by blast
  from embed_capacity_boundary [where fs = ?fs and image_path = "''carrier.png''"
      and output_path = "''stego.png''" and data = "[1, 2, 3, 4, 5, 6, 7, 8, 9, 10, 11]",
      OF h1 h2] over
  have b: "embed_data_in_image ?fs ''carrier.png'' [1, 2, 3, 4, 5, 6, 7, 8, 9, 10, 11]
             ''stego.png'' = (Some (ValueError ''Image too small to hold the data''), ?fs)"
    by blast
  from a b show ?thesis by simp
qed

text \<open>
  C9. For every readable carrier and every payload that fits, the written image has the
  carrier's rows, columns and channels and as many channel values; every channel value
  keeps its seven high bits; and every channel value from position \<open>8 * length data + 16\<close>
  on is unchanged. No other file is touched.
\<close>

theorem embed_frame:
  assumes "fs image_path = Some img" and "wf_image img"
    and "8 * length data + 16 \<le> rows img * cols img * channels img"
  shows "\<exists>stego. snd (embed_data_in_image fs image_path data output_path)
                     = fs(output_path \<mapsto> stego)
           \<and> rows stego = rows img \<and> cols stego = cols img \<and> channels stego = channels img
           \<and> length (flat stego) = length (flat img)
           \<and> (\<forall>j<length (flat img).
                 flat stego ! j AND 0xFE = flat img ! j AND 0xFE
                 \<and> (8 * length data + 16 \<le> j \<longrightarrow> flat stego ! j = flat img ! j))"
proof -
  from embed_fits [where fs = fs and image_path = image_path and output_path = output_path,
      OF assms] obtain r where
    r: "embed_data_in_image fs image_path data output_path
          = (None, fs(output_path \<mapsto> img\<lparr>flat := r\<rparr>))"
       "length r = length (flat img)"
       "\<forall>j<length (flat img). r ! j =
          (if j < 8 * length data + 16
           then (flat img ! j AND 0xFE) OR int_bit ((binary_of data @ delimiter) ! j)
           else flat img ! j)"
    by blast
  have "\<forall>j<length (flat img).
          r ! j AND 0xFE = flat img ! j AND 0xFE
          \<and> (8 * length data + 16 \<le> j \<longrightarrow> r ! j = flat img ! j)"
    using r(3) by (auto simp: high_bits_embed)
  with r(1,2) show ?thesis
    by (intro exI [of _ "img\<lparr>flat := r\<rparr>"]) simp
qed

theorem embed_frame_witness:
  "rows (the (snd (embed_data_in_image
          [''carrier.png'' \<mapsto> \<lparr>rows = 3, cols = 3, channels = 3, flat = replicate 27 0xAB\<rparr>]
          ''carrier.png'' [0x5C] ''stego.png'') ''stego.png'')) = 3
   \<and> length (flat (the (snd (embed_data_in_image
          [''carrier.png'' \<mapsto> \<lparr>rows = 3, cols = 3, channels = 3, flat = replicate 27 0xAB\<rparr>]
          ''carrier.png'' [0x5C] ''stego.png'') ''stego.png''))) = 27
   \<and> flat (the (snd (embed_data_in_image
          [''carrier.png'' \<mapsto> \<lparr>rows = 3, cols = 3, channels = 3, flat = replicate 27 0xAB\<rparr>]
          ''carrier.png'' [0x5C] ''stego.png'') ''stego.png'')) ! 0 AND 0xFE = 0xAA
   \<and> flat (the (snd (embed_data_in_image
          [''carrier.png'' \<mapsto> \<lparr>rows = 3, cols = 3, channels = 3, flat = replicate 27 0xAB\<rparr>]
          ''carrier.png'' [0x5C] ''stego.png'') ''stego.png'')) ! 26 = 0xAB"
proof -
  let ?img = "\<lparr>rows = 3, cols = 3, channels = 3, flat = replicate 27 (0xAB::byte)\<rparr>"
  let ?fs = "[''carrier.png'' \<mapsto> ?img]"
  have h1: "?fs ''carrier.png'' = Some ?img" by simp
  have h2: "wf_image ?img" by (simp add: wf_image_def)
  have h3: "8 * length [0x5C :: byte] + 16 \<le> rows ?img * cols ?img * channels ?img" by simp
  from embed_frame [where fs = ?fs and image_path = "''carrier.png''"
      and output_path = "''stego.png''", OF h1 h2 h3]
  obtain stego where
    s: "snd (embed_data_in_image ?fs ''carrier.png'' [0x5C] ''stego.png'')
          = ?fs(''stego.png'' \<mapsto> stego)"
    and shape: "rows stego = rows ?img" "length (flat stego) = length (flat ?img)"
    and px: "\<forall>j<length (flat ?img).
                 flat stego ! j AND 0xFE = flat ?img ! j AND 0xFE
                 \<and> (8 * length [0x5C :: byte] + 16 \<le> j \<longrightarrow> flat stego ! j = flat ?img ! j)"
    by blast
  have the: "the (snd (embed_data_in_image ?fs ''carrier.png'' [0x5C] ''stego.png'')
               ''stego.png'') = stego"
    unfolding s by simp
  have p0: "flat stego ! 0 AND 0xFE = 0xAA"
    using px [rule_format, of 0] by simp
  have p26: "flat stego ! 26 = 0xAB"
    using px [rule_format, of 26] by simp
  show ?thesis unfolding the using shape p0 p26 by simp
qed

section \<open>Biometric matcher: comparison and quality\<close>














section \<open>Access gate: audit rows per call\<close>

text \<open>
  Past the two input checks, with both identifiers non-empty, every outcome other than a
  biometric mismatch leaves exactly one new row: the failure row of the \<open>catch\<close> or the
  success row.
\<close>

lemma verify_route_one_row:
  assumes "req_biometricData req \<noteq> None" and "req_challenge req \<noteq> None"
    and "req_documentId req \<noteq> []" and "req_userId req \<noteq> []"
    and "case verifyResult env of Inl f \<Rightarrow> True | Inr v \<Rightarrow> verified v"
  shows "\<exists>row. snd (verify_route req env access_logs) = access_logs @ [row]"
  using assms
  by (auto simp: verify_route_def verify_try_def insert_log_def
           split: option.splits sum.splits prod.splits if_splits)

text \<open>
  C6. The claim asks for exactly one \<open>access_logs\<close> row per call. At a biometric mismatch
  the handler inserts the row with reason \<open>biometric_mismatch\<close>, throws, and its own
  \<open>catch\<close> inserts a second row with the message of the thrown error: the call below,
  on an empty table, leaves two rows.
\<close>

theorem verify_route_mismatch_two_rows:
  "verify_route
     \<lparr>req_documentId = ''doc-1'', req_userId = ''user-1'',
      req_biometricData = Some ''assertion'', req_type = ''fingerprint'',
      req_challenge = Some \<lparr>challenge_value = ''c'', challenge_timestamp = 1000\<rparr>\<rparr>
     \<lparr>challenge_clock = 2000,
      document_row = Some \<lparr>title = ''t'', start_time = 0, end_time = 5000,
                             document_status = ''active'', s3_key = ''k''\<rparr>,
      access_clock = 2000,
      template_row = Some \<lparr>template_features = [], template_hash = ''h''\<rparr>,
      processResult = Inr [],
      verifyResult = Inr \<lparr>verified = False, v_confidence = 0.25, v_similarity = 0.25,
                            v_threshold = 0.85, v_quality = Num 1\<rparr>,
      downloadResult = Inr [], extractResult = Inr [], decryptResult = Inr []\<rparr>
     []
   = (Inl (AuthorizationError ''Biometric verification failed''),
      [\<lparr>log_user_id = ''user-1'', log_document_id = ''doc-1'',
        access_type = ''biometric_verification'', success = False,
        failure_reason = Some ''biometric_mismatch'', confidence_score = Some 0.25\<rparr>,
       \<lparr>log_user_id = ''user-1'', log_document_id = ''doc-1'',
        access_type = ''biometric_verification'', success = False,
        failure_reason = Some ''Biometric verification failed'', confidence_score = None\<rparr>])"
  by (simp add: verify_route_def verify_try_def validateChallenge_def insert_log_def)

section \<open>Encryption engine: key derivation\<close>

lemma decrypt_encrypt_layout:
  assumes "length iv = 16" and "length tag = 16"
  shows "decrypt P (iv @ tag @ encrypted) key =
           (case lib_decipher P algorithm key (Some iv) None tag encrypted of
              None \<Rightarrow> Inl ''Unsupported state or unable to authenticate data''
            | Some decrypted \<Rightarrow> Inr decrypted)"
  using assms
  by (simp add: decrypt_def slice_def ivLength_const_def tagLength_const_def)

text \<open>
  C2. The claim needs the key of \<open>decryptDocument\<close> to be the key of \<open>encryptDocument\<close>.
  \<open>generateDocumentKey\<close> hashes the clock together with the identifiers, so a later call
  derives another key: whenever the cipher rejects, under the key derived at time \<open>t2\<close>,
  what it produced under the key derived at time \<open>t1\<close>, decrypting the encrypted document
  with the same identifiers fails.
\<close>

theorem decryptDocument_later_fails:
  assumes enc: "encryptDocument P now_meta t1 salt iv documentBuffer userId documentId None
                  = Inr r"
    and iv: "length iv = 16"
    and tag: "\<And>k pt. length (snd (lib_cipher P algorithm k (Some iv) None pt)) = 16"
    and reject: "\<And>pt. lib_decipher P algorithm (generateDocumentKey P t2 userId documentId) (Some iv) None
                   (snd (lib_cipher P algorithm (generateDocumentKey P t1 userId documentId) (Some iv) None pt))
                   (fst (lib_cipher P algorithm (generateDocumentKey P t1 userId documentId) (Some iv) None pt))
                 = None"
  shows "decryptDocument P t2 (enc_data r) userId documentId None
           = Inl ''Unsupported state or unable to authenticate data''"
proof -
  let ?k1 = "generateDocumentKey P t1 userId documentId"
  from enc obtain pt where
    r: "enc_data r = iv @ snd (lib_cipher P algorithm ?k1 (Some iv) None pt)
                        @ fst (lib_cipher P algorithm ?k1 (Some iv) None pt)"
    by (auto simp: encryptDocument_def encrypt_def Let_def split_beta
             split: option.splits sum.splits)
  show ?thesis
    unfolding decryptDocument_def r
    by (simp add: decrypt_encrypt_layout [OF iv tag] reject Let_def)
qed

lemma demo_key_1000:
  "generateDocumentKey demo_platform 1000 ''u'' ''d''
     = [0x75, 0x3A, 0x64, 0x3A, 0x31, 0x30, 0x30, 0x30]"
  by code_simp

lemma demo_key_1001:
  "generateDocumentKey demo_platform 1001 ''u'' ''d''
     = [0x75, 0x3A, 0x64, 0x3A, 0x31, 0x30, 0x30, 0x31]"
  by code_simp

theorem decryptDocument_later_fails_witness:
  "\<exists>r. encryptDocument demo_platform 1000 1000 [] (replicate 16 0) [1, 2, 3] ''u'' ''d'' None
           = Inr r
      \<and> decryptDocument demo_platform 1001 (enc_data r) ''u'' ''d'' None
           = Inl ''Unsupported state or unable to authenticate data''"
proof -
  obtain r where
    enc: "encryptDocument demo_platform 1000 1000 [] (replicate 16 0) [1, 2, 3] ''u'' ''d'' None
            = Inr r"
    by (simp add: encryptDocument_def encrypt_def writeUInt32BE_def demo_platform_def Let_def)
  have iv: "length (replicate 16 (0::byte)) = 16" by simp
  have tag: "\<And>k pt. length (snd (lib_cipher demo_platform algorithm k (Some (replicate 16 0)) None pt)) = 16"
    by (simp add: demo_platform_def demo_tag_def)
  have reject: "\<And>pt. lib_decipher demo_platform algorithm (generateDocumentKey demo_platform 1001 ''u'' ''d'')
                   (Some (replicate 16 0)) None
                   (snd (lib_cipher demo_platform algorithm (generateDocumentKey demo_platform 1000 ''u'' ''d'')
                           (Some (replicate 16 0)) None pt))
                   (fst (lib_cipher demo_platform algorithm (generateDocumentKey demo_platform 1000 ''u'' ''d'')
                           (Some (replicate 16 0)) None pt))
                 = None"
    unfolding demo_key_1000 demo_key_1001 by (simp add: demo_platform_def demo_tag_def)
  from decryptDocument_later_fails [OF enc iv tag reject] enc show ?thesis by blast
qed

section \<open>Encryption engine: the serialized package\<close>

lemma split_u32:
  "(n::nat) = (n div 2 ^ 24) * 2 ^ 24 + (n div 2 ^ 16 mod 256) * 2 ^ 16
              + (n div 2 ^ 8 mod 256) * 2 ^ 8 + n mod 256"
proof -
  have a: "n = (n div 256) * 256 + n mod 256" by simp
  have b: "n div 256 = (n div 256 div 256) * 256 + n div 256 mod 256" by simp
  have c: "n div 256 div 256 = (n div 256 div 256 div 256) * 256 + n div 256 div 256 mod 256"
    by simp
  have d16: "n div 65536 = n div 256 div 256" by (simp add: div_mult2_eq [symmetric])
  have d24: "n div 16777216 = n div 256 div 256 div 256" by (simp add: div_mult2_eq [symmetric])
  have p: "(2::nat) ^ 24 = 16777216" "(2::nat) ^ 16 = 65536" "(2::nat) ^ 8 = 256"
    by simp_all
  define x where "x = n div 256 div 256 div 256"
  define y where "y = n div 256 div 256 mod 256"
  define z where "z = n div 256 mod 256"
  define w where "w = n mod 256"
  define u where "u = n div 256"
  define v where "v = n div 256 div 256"
  have "n = u * 256 + w" "u = v * 256 + z" "v = x * 256 + y"
    using a b c unfolding x_def y_def z_def w_def u_def v_def by blast+
  then have "n = x * 16777216 + y * 65536 + z * 256 + w"
    by simp
  then show ?thesis
    unfolding p d16 d24 x_def y_def z_def w_def .
qed

lemma readUInt32BE_writeUInt32BE:
  assumes "writeUInt32BE n = Some b"
  shows "readUInt32BE (b @ rest) = Some n \<and> length b = 4"
proof -
  from assms have n: "n < 2 ^ 32"
    and b: "b = [of_nat (n div 2 ^ 24), of_nat (n div 2 ^ 16), of_nat (n div 2 ^ 8), of_nat n]"
    by (auto simp: writeUInt32BE_def split: if_splits)
  have hi: "n div 2 ^ 24 < 256" using n by (simp add: less_mult_imp_div_less)
  have "readUInt32BE (b @ rest)
          = Some ((n div 2 ^ 24) mod 256 * 2 ^ 24 + (n div 2 ^ 16 mod 256) * 2 ^ 16
                  + (n div 2 ^ 8 mod 256) * 2 ^ 8 + n mod 256)"
    unfolding b by (simp add: readUInt32BE_def unat_of_nat)
  also have "(n div 2 ^ 24) mod 256 = n div 2 ^ 24" using hi by simp
  also have "(n div 2 ^ 24) * 2 ^ 24 + (n div 2 ^ 16 mod 256) * 2 ^ 16
                  + (n div 2 ^ 8 mod 256) * 2 ^ 8 + n mod 256 = n"
    by (rule split_u32 [symmetric])
  finally show ?thesis using b by simp
qed

lemma slice_at:
  "slice (pre @ x @ post) (length pre) (length pre + length x) = x"
  by (simp add: slice_def)

lemma deserialize_serialize:
  assumes ser: "serializeEncryptedPackage P pkg = Inr serialized"
    and json: "parse_package P (stringify_package P (package_metadata_of pkg))
                 = Some (package_metadata_of pkg)"
  shows "deserializeEncryptedPackage P serialized = Inr pkg"
proof -
  let ?meta = "stringify_package P (package_metadata_of pkg)"
  let ?k = "case pkg_key pkg of Some k \<Rightarrow> k | None \<Rightarrow> []"
  let ?s = "case pkg_salt pkg of Some s \<Rightarrow> s | None \<Rightarrow> []"
  from ser obtain len where
    len: "writeUInt32BE (length ?meta) = Some len"
    and s: "serialized = len @ ?meta @ pkg_iv pkg @ pkg_tag pkg @ pkg_encrypted pkg @ ?k @ ?s"
    by (auto simp: serializeEncryptedPackage_def Let_def split: option.splits)
  from readUInt32BE_writeUInt32BE [OF len] have
    rd: "readUInt32BE serialized = Some (length ?meta)" and l4: "length len = 4"
    unfolding s by simp_all
  have m: "slice serialized 4 (4 + length ?meta) = ?meta"
    unfolding s using l4 by (simp add: slice_def)
  have iv: "slice serialized (4 + length ?meta) (4 + length ?meta + length (pkg_iv pkg))
              = pkg_iv pkg"
    unfolding s using l4 by (simp add: slice_def)
  have tag: "slice serialized (4 + length ?meta + length (pkg_iv pkg))
               (4 + length ?meta + length (pkg_iv pkg) + length (pkg_tag pkg)) = pkg_tag pkg"
    unfolding s using l4 by (simp add: slice_def)
  have enc: "slice serialized (4 + length ?meta + length (pkg_iv pkg) + length (pkg_tag pkg))
               (4 + length ?meta + length (pkg_iv pkg) + length (pkg_tag pkg)
                  + length (pkg_encrypted pkg)) = pkg_encrypted pkg"
    unfolding s using l4 by (simp add: slice_def)
  have key: "slice serialized
               (4 + length ?meta + length (pkg_iv pkg) + length (pkg_tag pkg)
                  + length (pkg_encrypted pkg))
               (4 + length ?meta + length (pkg_iv pkg) + length (pkg_tag pkg)
                  + length (pkg_encrypted pkg) + length ?k) = ?k"
    unfolding s using l4 by (simp add: slice_def)
  have salt: "slice serialized
               (4 + length ?meta + length (pkg_iv pkg) + length (pkg_tag pkg)
                  + length (pkg_encrypted pkg) + length ?k)
               (4 + length ?meta + length (pkg_iv pkg) + length (pkg_tag pkg)
                  + length (pkg_encrypted pkg) + length ?k + length ?s) = ?s"
    unfolding s using l4 by (simp add: slice_def)
  show ?thesis
  proof (cases "pkg_key pkg")
    case None
    note k = this
    show ?thesis
    proof (cases "pkg_salt pkg")
      case None
      then show ?thesis
        using k rd m json iv tag enc
        by (simp add: deserializeEncryptedPackage_def Let_def package_metadata_of_def)
    next
      case (Some sl)
      then show ?thesis
        using k rd m json iv tag enc salt
        by (simp add: deserializeEncryptedPackage_def Let_def package_metadata_of_def)
    qed
  next
    case (Some ky)
    note k = this
    show ?thesis
    proof (cases "pkg_salt pkg")
      case None
      then show ?thesis
        using k rd m json iv tag enc key
        by (simp add: deserializeEncryptedPackage_def Let_def package_metadata_of_def)
    next
      case (Some sl)
      then show ?thesis
        using k rd m json iv tag enc key salt
        by (simp add: deserializeEncryptedPackage_def Let_def package_metadata_of_def)
    qed
  qed
qed

lemma package_metadata_of_iv:
  "length iv' = length (pkg_iv pkg) \<Longrightarrow>
   package_metadata_of (pkg\<lparr>pkg_iv := iv'\<rparr>) = package_metadata_of pkg"
  by (simp add: package_metadata_of_def)

text \<open>
  C3. The claim asks that a flipped bit of the iv makes decryption fail. The package
  service never hands the iv to the cipher or the decipher: two serialized packages that
  differ only in the bytes of the iv (of equal length, as after a bit flip) give the same
  result of \<open>decryptDocument\<close>, so a package that decrypts still decrypts, to the same
  plaintext, after any change of its iv.
\<close>

theorem ES_decryptDocument_ignores_iv:
  assumes ser: "serializeEncryptedPackage P pkg = Inr serialized"
    and tam: "serializeEncryptedPackage P (pkg\<lparr>pkg_iv := iv'\<rparr>) = Inr tampered"
    and len: "length iv' = length (pkg_iv pkg)"
    and json: "parse_package P (stringify_package P (package_metadata_of pkg))
                 = Some (package_metadata_of pkg)"
  shows "(\<exists>header rest. serialized = header @ pkg_iv pkg @ rest
                        \<and> tampered = header @ iv' @ rest)
       \<and> ES_decryptDocument P tampered key userPassword
           = ES_decryptDocument P serialized key userPassword"
proof -
  have meta: "package_metadata_of (pkg\<lparr>pkg_iv := iv'\<rparr>) = package_metadata_of pkg"
    using len by (rule package_metadata_of_iv)
  have d1: "deserializeEncryptedPackage P serialized = Inr pkg"
    using ser json by (rule deserialize_serialize)
  have d2: "deserializeEncryptedPackage P tampered = Inr (pkg\<lparr>pkg_iv := iv'\<rparr>)"
    using tam json unfolding meta [symmetric] by (rule deserialize_serialize)
  have layout: "\<exists>header rest. serialized = header @ pkg_iv pkg @ rest
                               \<and> tampered = header @ iv' @ rest"
  proof -
    let ?meta = "stringify_package P (package_metadata_of pkg)"
    from ser obtain l where
      "serialized = (l @ ?meta) @ pkg_iv pkg @ (pkg_tag pkg @ pkg_encrypted pkg
           @ (case pkg_key pkg of Some k \<Rightarrow> k | None \<Rightarrow> [])
           @ (case pkg_salt pkg of Some s \<Rightarrow> s | None \<Rightarrow> []))"
      and l: "writeUInt32BE (length ?meta) = Some l"
      by (auto simp: serializeEncryptedPackage_def Let_def split: option.splits)
    moreover from tam l have
      "tampered = (l @ ?meta) @ iv' @ (pkg_tag pkg @ pkg_encrypted pkg
           @ (case pkg_key pkg of Some k \<Rightarrow> k | None \<Rightarrow> [])
           @ (case pkg_salt pkg of Some s \<Rightarrow> s | None \<Rightarrow> []))"
      by (auto simp: serializeEncryptedPackage_def meta Let_def split: option.splits)
    ultimately show ?thesis by blast
  qed
  have "ES_decryptDocument P tampered key userPassword
          = ES_decryptDocument P serialized key userPassword"
    unfolding ES_decryptDocument_def d1 d2
    by (auto cong del: option.case_cong_weak)
  with layout show ?thesis by blast
qed

lemma char_of_utf8: "map (\<lambda>b. char_of (unat b)) (utf8 s) = s"
proof -
  have "\<And>c. char_of (unat (of_nat (of_char c) :: byte)) = c"
    by (simp add: unat_of_nat)
  then show ?thesis
    by (simp add: utf8_def o_def)
qed

lemma demo_package_json:
  "demo_parse_package (demo_stringify_package
      \<lparr>pm_algorithm = ''aes-256-gcm'', pm_timestamp = 7, ivLength = 16, tagLength = 16,
       encryptedLength = 3, hasKey = True, hasSalt = False, keyLength = 32, saltLength = 0\<rparr>)
   = Some \<lparr>pm_algorithm = ''aes-256-gcm'', pm_timestamp = 7, ivLength = 16, tagLength = 16,
       encryptedLength = 3, hasKey = True, hasSalt = False, keyLength = 32, saltLength = 0\<rparr>"
proof -
  have name: "map (\<lambda>b. char_of (unat b)) (utf8 ''aes-256-gcm'') = ''aes-256-gcm''"
    by (rule char_of_utf8)
  have len: "length (utf8 ''aes-256-gcm'') = 11" by (simp add: utf8_def)
  show ?thesis
    unfolding demo_stringify_package_def demo_parse_package_def
    by (simp add: writeUInt32BE_def readUInt32BE_def Let_def name len)
qed

theorem ES_decryptDocument_ignores_iv_witness:
  "\<exists>serialized tampered.
     serializeEncryptedPackage demo_platform
       \<lparr>pkg_encrypted = [0x5B, 0x58, 0x59], pkg_iv = 0 # replicate 15 0,
        pkg_tag = demo_tag (replicate 32 0xAA), pkg_key = Some (replicate 32 0xAA),
        pkg_salt = None, pkg_algorithm = ''aes-256-gcm'', pkg_timestamp = 7\<rparr> = Inr serialized
     \<and> serializeEncryptedPackage demo_platform
       \<lparr>pkg_encrypted = [0x5B, 0x58, 0x59], pkg_iv = 1 # replicate 15 0,
        pkg_tag = demo_tag (replicate 32 0xAA), pkg_key = Some (replicate 32 0xAA),
        pkg_salt = None, pkg_algorithm = ''aes-256-gcm'', pkg_timestamp = 7\<rparr> = Inr tampered
     \<and> tampered \<noteq> serialized
     \<and> ES_decryptDocument demo_platform serialized None None
         = Inr \<lparr>documentBuffer_out = [1, 2, 3], dr_algorithm = ''aes-256-gcm'',
                dr_timestamp = 7, dr_size = 3\<rparr>
     \<and> ES_decryptDocument demo_platform tampered None None
         = Inr \<lparr>documentBuffer_out = [1, 2, 3], dr_algorithm = ''aes-256-gcm'',
                dr_timestamp = 7, dr_size = 3\<rparr>"
proof -
  let ?pkg = "\<lparr>pkg_encrypted = [0x5B, 0x58, 0x59], pkg_iv = 0 # replicate 15 (0::byte),
        pkg_tag = demo_tag (replicate 32 0xAA), pkg_key = Some (replicate 32 0xAA),
        pkg_salt = None, pkg_algorithm = ''aes-256-gcm'', pkg_timestamp = 7\<rparr>"
  let ?iv' = "1 # replicate 15 (0::byte)"
  have meta: "package_metadata_of ?pkg
      = \<lparr>pm_algorithm = ''aes-256-gcm'', pm_timestamp = 7, ivLength = 16, tagLength = 16,
         encryptedLength = 3, hasKey = True, hasSalt = False, keyLength = 32, saltLength = 0\<rparr>"
    by (simp add: package_metadata_of_def demo_tag_def)
  have json: "parse_package demo_platform
                (stringify_package demo_platform (package_metadata_of ?pkg))
              = Some (package_metadata_of ?pkg)"
    unfolding meta using demo_package_json by (simp add: demo_platform_def)
  have small: "length (stringify_package demo_platform (package_metadata_of ?pkg)) < 2 ^ 32"
    unfolding meta
    by (simp add: demo_platform_def demo_stringify_package_def writeUInt32BE_def utf8_def)
  obtain serialized where ser: "serializeEncryptedPackage demo_platform ?pkg = Inr serialized"
    using small by (simp add: serializeEncryptedPackage_def writeUInt32BE_def Let_def)
  have meta': "package_metadata_of (?pkg\<lparr>pkg_iv := ?iv'\<rparr>) = package_metadata_of ?pkg"
    by (rule package_metadata_of_iv) simp
  obtain tampered where
    tam: "serializeEncryptedPackage demo_platform (?pkg\<lparr>pkg_iv := ?iv'\<rparr>) = Inr tampered"
    using small unfolding meta' [symmetric]
    by (simp add: serializeEncryptedPackage_def writeUInt32BE_def Let_def)
  have len: "length ?iv' = length (pkg_iv ?pkg)" by simp
  from ES_decryptDocument_ignores_iv [OF ser tam len json, of None None]
  obtain header rest where
    lay: "serialized = header @ pkg_iv ?pkg @ rest" "tampered = header @ ?iv' @ rest"
    and same: "ES_decryptDocument demo_platform tampered None None
                 = ES_decryptDocument demo_platform serialized None None"
    by blast
  have ne: "tampered \<noteq> serialized"
    unfolding lay by simp
  have d: "deserializeEncryptedPackage demo_platform serialized = Inr ?pkg"
    using ser json by (rule deserialize_serialize)
  have ok: "ES_decryptDocument demo_platform serialized None None
              = Inr \<lparr>documentBuffer_out = [1, 2, 3], dr_algorithm = ''aes-256-gcm'',
                     dr_timestamp = 7, dr_size = 3\<rparr>"
    unfolding ES_decryptDocument_def d by (simp add: demo_platform_def)
  from ser tam ne ok same show ?thesis
    by (intro exI [of _ serialized] exI [of _ tampered]) simp
qed

section \<open>Encryption engine: where the key is stored\<close>

lemma ES_encryptDocument_key_layout:
  assumes "\<not> truthy userPassword"
    and "ES_encryptDocument P key_random salt_derive iv salt_package now documentBuffer
           userPassword = Inr r"
  shows "\<exists>header. es_encryptedData r
           = header @ iv
             @ snd (lib_cipher P algorithm key_random None (Some aad) documentBuffer)
             @ fst (lib_cipher P algorithm key_random None (Some aad) documentBuffer)
             @ key_random"
  using assms
  by (auto simp: ES_encryptDocument_def serializeEncryptedPackage_def Let_def split_beta
           split: option.splits sum.splits)

lemma register_route_key:
  assumes "register_route P encryptionKey iv userId biometricType credentialData process_result
             existingTemplate db_error = Inr w"
  shows "encryption_key (row_of w) = hex encryptionKey"
  using assms
  by (auto simp: register_route_def Let_def split: option.splits sum.splits if_splits)

lemma hex_digits_all: "list_all (\<lambda>d. hex_value (hex_digit d) = Some d) [0..<16]"
  by code_simp

lemma hex_value_hex_digit: "d < 16 \<Longrightarrow> hex_value (hex_digit d) = Some d"
  using hex_digits_all by (simp add: list_all_iff)

lemma from_hex_hex: "from_hex (hex buf) = buf"
proof (induction buf)
  case Nil
  show ?case by (simp add: hex_def)
next
  case (Cons b buf)
  have hi: "unat b div 16 < 16"
    using unsigned_less [of b, where 'a = nat] by (simp add: less_mult_imp_div_less)
  have lo: "unat b mod 16 < 16" by simp
  have "(of_nat (16 * (unat b div 16) + unat b mod 16) :: byte) = b"
    by simp
  with Cons.IH show ?case
    using hex_value_hex_digit [OF hi] hex_value_hex_digit [OF lo]
    by (simp add: hex_def)
qed

text \<open>
  C7 (amended). \<open>encryptDocument\<close> stores the raw key in the serialized package exactly
  when no password is given: the package then ends with the key that produced its
  ciphertext. With a password the package ends with the salt and its metadata says that
  there is no key. The template row written at registration, by update or by insert,
  stores the hexadecimal raw key in \<open>encryption_key\<close> next to the \<open>template_data\<close>
  encrypted under it.
\<close>

theorem key_stored_beside_ciphertext:
  shows "(\<not> truthy userPassword \<and>
          ES_encryptDocument P key_random salt_derive iv salt_package now documentBuffer
            userPassword = Inr r \<longrightarrow>
            (\<exists>header. es_encryptedData r
               = header @ iv
                 @ snd (lib_cipher P algorithm key_random None (Some aad) documentBuffer)
                 @ fst (lib_cipher P algorithm key_random None (Some aad) documentBuffer)
                 @ key_random))
       \<and> (truthy userPassword \<and>
          ES_encryptDocument P key_random salt_derive iv salt_package now documentBuffer
            userPassword = Inr r \<longrightarrow>
            (\<exists>metadataLength metadata.
               hasKey metadata = False \<and> keyLength metadata = 0 \<and>
               es_encryptedData r
                 = metadataLength @ stringify_package P metadata @ iv
                   @ snd (lib_cipher P algorithm
                            (deriveKeyFromPassword P (the userPassword) salt_derive)
                            None (Some aad) documentBuffer)
                   @ fst (lib_cipher P algorithm
                            (deriveKeyFromPassword P (the userPassword) salt_derive)
                            None (Some aad) documentBuffer)
                   @ salt_package))
       \<and> (register_route P encryptionKey iv userId biometricType credentialData process_result
            existingTemplate db_error = Inr w \<longrightarrow>
            encryption_key (row_of w) = hex encryptionKey \<and>
            (\<exists>templateJson. template_data (row_of w)
               = lib_base64 P (iv
                   @ snd (lib_cipher P ''aes-256-gcm'' encryptionKey None None templateJson)
                   @ fst (lib_cipher P ''aes-256-gcm'' encryptionKey None None templateJson))))"
proof (intro conjI impI)
  assume "\<not> truthy userPassword \<and>
          ES_encryptDocument P key_random salt_derive iv salt_package now documentBuffer
            userPassword = Inr r"
  then show "\<exists>header. es_encryptedData r
               = header @ iv
                 @ snd (lib_cipher P algorithm key_random None (Some aad) documentBuffer)
                 @ fst (lib_cipher P algorithm key_random None (Some aad) documentBuffer)
                 @ key_random"
    using ES_encryptDocument_key_layout by blast
next
  assume a: "truthy userPassword \<and>
          ES_encryptDocument P key_random salt_derive iv salt_package now documentBuffer
            userPassword = Inr r"
  show "\<exists>metadataLength metadata.
               hasKey metadata = False \<and> keyLength metadata = 0 \<and>
               es_encryptedData r
                 = metadataLength @ stringify_package P metadata @ iv
                   @ snd (lib_cipher P algorithm
                            (deriveKeyFromPassword P (the userPassword) salt_derive)
                            None (Some aad) documentBuffer)
                   @ fst (lib_cipher P algorithm
                            (deriveKeyFromPassword P (the userPassword) salt_derive)
                            None (Some aad) documentBuffer)
                   @ salt_package"
  proof -
    let ?key = "deriveKeyFromPassword P (the userPassword) salt_derive"
    let ?c = "lib_cipher P algorithm ?key None (Some aad) documentBuffer"
    let ?pkg = "\<lparr>pkg_encrypted = fst ?c, pkg_iv = iv, pkg_tag = snd ?c,
                 pkg_key = None, pkg_salt = Some salt_package,
                 pkg_algorithm = algorithm, pkg_timestamp = now\<rparr>"
    from a obtain l where
      l: "writeUInt32BE (length (stringify_package P (package_metadata_of ?pkg))) = Some l"
      and r: "es_encryptedData r
                = l @ stringify_package P (package_metadata_of ?pkg) @ iv @ snd ?c @ fst ?c
                  @ salt_package"
      by (auto simp: ES_encryptDocument_def serializeEncryptedPackage_def Let_def split_beta
               split: option.splits sum.splits)
    have "hasKey (package_metadata_of ?pkg) = False \<and> keyLength (package_metadata_of ?pkg) = 0"
      by (simp add: package_metadata_of_def)
    with r show ?thesis by blast
  qed
next
  assume w: "register_route P encryptionKey iv userId biometricType credentialData process_result
            existingTemplate db_error = Inr w"
  then show "encryption_key (row_of w) = hex encryptionKey"
    by (rule register_route_key)
  from w show "\<exists>templateJson. template_data (row_of w)
               = lib_base64 P (iv
                   @ snd (lib_cipher P ''aes-256-gcm'' encryptionKey None None templateJson)
                   @ fst (lib_cipher P ''aes-256-gcm'' encryptionKey None None templateJson))"
    by (auto simp: register_route_def encryptTemplate_def Let_def split_beta
             split: option.splits sum.splits if_splits)
qed

lemma demo_encrypt_no_password:
  "\<exists>r. ES_encryptDocument demo_platform (replicate 32 0xAA) [] (replicate 16 0) [] 7
          [1, 2, 3] None = Inr r"
  by (simp add: ES_encryptDocument_def serializeEncryptedPackage_def package_metadata_of_def
      writeUInt32BE_def demo_platform_def demo_stringify_package_def demo_tag_def utf8_def
      algorithm_def deriveKeyFromPassword_def keyLength_const_def Let_def)

lemma demo_encrypt_password:
  "\<exists>r. ES_encryptDocument demo_platform (replicate 32 0xAA) [9, 9] (replicate 16 0) [8, 8] 7
          [1, 2, 3] (Some ''pw'') = Inr r"
  by (simp add: ES_encryptDocument_def serializeEncryptedPackage_def package_metadata_of_def
      writeUInt32BE_def demo_platform_def demo_stringify_package_def demo_tag_def utf8_def
      algorithm_def deriveKeyFromPassword_def keyLength_const_def Let_def)

lemma demo_register:
  "register_route demo_platform (replicate 32 0xAA) (replicate 16 0) ''user-1'' ''fingerprint''
     (Some ''credential'')
     (Inr \<lparr>pc_templateJson = [1, 2], pc_templateId = ''t-1'', pc_confidence = 1,
           pc_biometricType = ''fingerprint''\<rparr>) False False
   = Inr (Insert
       \<lparr>row_user_id = ''user-1'', row_biometric_type = ''fingerprint'',
        template_data = encryptTemplate demo_platform (replicate 16 0) [1, 2] (replicate 32 0xAA),
        template_id = ''t-1'', encryption_key = hex (replicate 32 0xAA),
        row_confidence_score = 1\<rparr>)"
  by (simp add: register_route_def)

theorem key_stored_beside_ciphertext_witness:
  "suffix (replicate 32 0xAA)
     (es_encryptedData (projr (ES_encryptDocument demo_platform (replicate 32 0xAA) []
        (replicate 16 0) [] 7 [1, 2, 3] None)))
   \<and> suffix [8, 8]
     (es_encryptedData (projr (ES_encryptDocument demo_platform (replicate 32 0xAA) [9, 9]
        (replicate 16 0) [8, 8] 7 [1, 2, 3] (Some ''pw''))))
   \<and> encryption_key (row_of (projr
       (register_route demo_platform (replicate 32 0xAA) (replicate 16 0) ''user-1''
          ''fingerprint'' (Some ''credential'')
          (Inr \<lparr>pc_templateJson = [1, 2], pc_templateId = ''t-1'', pc_confidence = 1,
                pc_biometricType = ''fingerprint''\<rparr>) False False)))
     = hex (replicate 32 0xAA)"
proof -
  note stored = key_stored_beside_ciphertext
  obtain r1 where r1: "ES_encryptDocument demo_platform (replicate 32 0xAA) []
        (replicate 16 0) [] 7 [1, 2, 3] None = Inr r1"
    using demo_encrypt_no_password by blast
  have "\<not> truthy None" by simp
  with r1 stored [THEN conjunct1, of None demo_platform "replicate 32 0xAA" "[]" "replicate 16 0"
      "[]" 7 "[1, 2, 3]" r1]
  have a: "suffix (replicate 32 0xAA) (es_encryptedData r1)"
    unfolding suffix_def by (metis append.assoc)
  obtain r2 where r2: "ES_encryptDocument demo_platform (replicate 32 0xAA) [9, 9]
        (replicate 16 0) [8, 8] 7 [1, 2, 3] (Some ''pw'') = Inr r2"
    using demo_encrypt_password by blast
  have "truthy (Some ''pw'')" by simp
  with r2 stored [THEN conjunct2, THEN conjunct1, of "Some ''pw''" demo_platform
      "replicate 32 0xAA" "[9, 9]" "replicate 16 0" "[8, 8]" 7 "[1, 2, 3]" r2]
  have b: "suffix [8, 8] (es_encryptedData r2)"
    unfolding suffix_def by (metis append.assoc)
  from stored [THEN conjunct2, THEN conjunct2, rule_format, OF demo_register]
  have c: "encryption_key (row_of (Insert
       \<lparr>row_user_id = ''user-1'', row_biometric_type = ''fingerprint'',
        template_data = encryptTemplate demo_platform (replicate 16 0) [1, 2] (replicate 32 0xAA),
        template_id = ''t-1'', encryption_key = hex (replicate 32 0xAA),
        row_confidence_score = 1\<rparr>)) = hex (replicate 32 0xAA)"
    by blast
  show ?thesis
    unfolding r1 r2 demo_register using a b by simp
qed

theorem key_stored_beside_ciphertext_counterexample:
  "\<not> isl (ES_encryptDocument demo_platform (replicate 32 0xAA) [] (replicate 16 0) [] 7
            [1, 2, 3] None)
   \<and> sublist (replicate 32 0xAA)
       (es_encryptedData (projr (ES_encryptDocument demo_platform (replicate 32 0xAA) []
          (replicate 16 0) [] 7 [1, 2, 3] None)))
   \<and> from_hex (encryption_key (row_of (projr
       (register_route demo_platform (replicate 32 0xAA) (replicate 16 0) ''user-1''
          ''fingerprint'' (Some ''credential'')
          (Inr \<lparr>pc_templateJson = [1, 2], pc_templateId = ''t-1'', pc_confidence = 1,
                pc_biometricType = ''fingerprint''\<rparr>) False False))))
     = replicate 32 0xAA"
proof -
  obtain r1 where r1: "ES_encryptDocument demo_platform (replicate 32 0xAA) []
        (replicate 16 0) [] 7 [1, 2, 3] None = Inr r1"
    using demo_encrypt_no_password by blast
  have "\<not> truthy None" by simp
  from ES_encryptDocument_key_layout [OF this r1]
  have a: "sublist (replicate 32 0xAA) (es_encryptedData r1)"
    unfolding sublist_def by (metis append.assoc append_Nil2)
  have h: "from_hex (hex (replicate 32 0xAA)) = replicate 32 0xAA"
    by (rule from_hex_hex)
  show ?thesis
    unfolding r1 demo_register using a h by simp
qed

end
